theory Spec2Isabelle
  imports Complex_Main
begin

section \<open>Numbers\<close>

text \<open>
  The floating point numbers of Python and NumPy are modelled without rounding: a finite
  float is a real number, and the three special values keep the behaviour that decides
  the control flow of \<open>FFTKDE.evaluate\<close>: division by zero gives \<open>inf\<close> or \<open>nan\<close>
  (NumPy warns, it does not raise), every comparison with \<open>nan\<close> is false, and
  \<open>inf > 0\<close> is true. Signed zeros are not modelled.
\<close>

datatype npfloat = Fin real | PInf | NInf | NaN

text \<open>
  A Python value as the \<open>isinstance(v, numbers.Number)\<close> test sees it: a (real) number
  or anything else (a string, \<open>None\<close>, a list). Complex numbers, which Python cannot
  compare with \<open>0\<close>, are outside this type.
\<close>

datatype pyval = Num npfloat | NotNumber

fun np_neg :: "npfloat \<Rightarrow> npfloat" where
  "np_neg (Fin x) = Fin (- x)"
| "np_neg PInf = NInf"
| "np_neg NInf = PInf"
| "np_neg NaN = NaN"

fun np_add :: "npfloat \<Rightarrow> npfloat \<Rightarrow> npfloat" where
  "np_add NaN _ = NaN"
| "np_add _ NaN = NaN"
| "np_add (Fin x) (Fin y) = Fin (x + y)"
| "np_add PInf NInf = NaN"
| "np_add NInf PInf = NaN"
| "np_add PInf _ = PInf"
| "np_add NInf _ = NInf"
| "np_add (Fin x) b = b"

definition np_sub :: "npfloat \<Rightarrow> npfloat \<Rightarrow> npfloat" where
  "np_sub a b = np_add a (np_neg b)"

text \<open>The sign of a product or quotient with an infinite operand: \<open>inf * 0\<close> is \<open>nan\<close>.\<close>

definition signed_inf :: "real \<Rightarrow> npfloat" where
  "signed_inf s = (if s = 0 then NaN else if 0 < s then PInf else NInf)"

fun np_mul :: "npfloat \<Rightarrow> npfloat \<Rightarrow> npfloat" where
  "np_mul NaN _ = NaN"
| "np_mul _ NaN = NaN"
| "np_mul (Fin x) (Fin y) = Fin (x * y)"
| "np_mul (Fin x) PInf = signed_inf x"
| "np_mul (Fin x) NInf = signed_inf (- x)"
| "np_mul PInf (Fin y) = signed_inf y"
| "np_mul NInf (Fin y) = signed_inf (- y)"
| "np_mul PInf PInf = PInf"
| "np_mul NInf NInf = PInf"
| "np_mul PInf NInf = NInf"
| "np_mul NInf PInf = NInf"

fun np_div :: "npfloat \<Rightarrow> npfloat \<Rightarrow> npfloat" where
  "np_div NaN _ = NaN"
| "np_div _ NaN = NaN"
| "np_div (Fin x) (Fin y) = (if y = 0 then signed_inf x else Fin (x / y))"
| "np_div (Fin x) PInf = Fin 0"
| "np_div (Fin x) NInf = Fin 0"
| "np_div PInf (Fin y) = (if 0 \<le> y then PInf else NInf)"
| "np_div NInf (Fin y) = (if 0 \<le> y then NInf else PInf)"
| "np_div PInf _ = NaN"
| "np_div NInf _ = NaN"

fun np_floor :: "npfloat \<Rightarrow> npfloat" where
  "np_floor (Fin x) = Fin (of_int \<lfloor>x\<rfloor>)"
| "np_floor a = a"

text \<open>\<open>a < b\<close> on floats: false as soon as one side is \<open>nan\<close>.\<close>

fun np_lt :: "npfloat \<Rightarrow> npfloat \<Rightarrow> bool" where
  "np_lt NaN _ = False"
| "np_lt _ NaN = False"
| "np_lt (Fin x) (Fin y) = (x < y)"
| "np_lt _ NInf = False"
| "np_lt PInf _ = False"
| "np_lt NInf _ = True"
| "np_lt (Fin x) PInf = True"

text \<open>\<open>np.minimum\<close>: a \<open>nan\<close> operand is returned.\<close>

definition np_minimum :: "npfloat \<Rightarrow> npfloat \<Rightarrow> npfloat" where
  "np_minimum a b = (if a = NaN \<or> b = NaN then NaN else if np_lt b a then b else a)"

definition is_finite :: "npfloat \<Rightarrow> bool" where
  "is_finite a = (case a of Fin _ \<Rightarrow> True | _ \<Rightarrow> False)"

section \<open>Errors\<close>

text \<open>
  Every exception that the modelled code can raise is a constructor. The specification's
  taxonomy names are kept apart from the exceptions of the code: \<open>InvalidGridError\<close> is
  whatever \<open>BaseKDE.evaluate\<close> raises when it rejects the grid request,
  \<open>BaseInitError\<close> whatever \<open>BaseKDE.__init__\<close> raises, \<open>BinningError\<close> whatever
  \<open>linear_binning\<close> raises. \<open>BwValueError\<close> is the
  \<open>ValueError('The bw must be a callable or a number.')\<close> of line 136,
  \<open>AssertionError\<close> is a failed \<open>assert\<close> (lines 70 and 161); the others are raised by
  NumPy: a reduction of an empty array, \<open>int\<close> of a non-finite float, \<open>linspace\<close> with
  a negative count, \<open>reshape\<close> to a shape of another size.
\<close>

datatype error =
    InvalidGridError
  | BaseInitError
  | BwValueError
  | BinningError
  | EmptyReductionError
  | AssertionError
  | IntConversionError
  | LinspaceValueError
  | ReshapeValueError

text \<open>\<open>int(x)\<close> on a float: truncation towards zero; \<open>nan\<close> and the infinities raise.\<close>

fun py_int :: "npfloat \<Rightarrow> error + int" where
  "py_int (Fin x) = Inr (if 0 \<le> x then \<lfloor>x\<rfloor> else \<lceil>x\<rceil>)"
| "py_int a = Inl IntConversionError"


section \<open>Arrays\<close>

text \<open>
  A two-dimensional array (the fitted data, the grid) is the list of its rows. An
  n-dimensional array is its shape with its elements in C order (last axis fastest), as
  \<open>reshape\<close> of NumPy reads and writes them.
\<close>

type_synonym array2 = "real list list"
type_synonym ndarray = "nat list \<times> real list"

definition col :: "nat \<Rightarrow> 'a list list \<Rightarrow> 'a list" where
  "col i g = map (\<lambda>r. r ! i) g"

text \<open>\<open>a.reshape(*shape)\<close>: the element count must agree.\<close>

definition reshape :: "real list \<Rightarrow> nat list \<Rightarrow> error + ndarray" where
  "reshape xs shp = (if prod_list shp = length xs then Inr (shp, xs) else Inl ReshapeValueError)"

text \<open>All multi-indices of a shape, in C order, and the flat position of a multi-index.\<close>

definition indices :: "nat list \<Rightarrow> nat list list" where
  "indices shp = product_lists (map (\<lambda>s. [0..<s]) shp)"

fun ravel :: "nat list \<Rightarrow> nat list \<Rightarrow> nat" where
  "ravel (s # ss) (i # is) = i * prod_list ss + ravel ss is"
| "ravel _ _ = 0"

definition in_bounds :: "nat list \<Rightarrow> int list \<Rightarrow> bool" where
  "in_bounds shp idx = list_all2 (\<lambda>s i. 0 \<le> i \<and> i < int s) shp idx"

definition at_or_zero :: "ndarray \<Rightarrow> int list \<Rightarrow> real" where
  "at_or_zero a idx =
     (if in_bounds (fst a) idx then snd a ! ravel (fst a) (map nat idx) else 0)"

text \<open>
  \<open>scipy.signal.convolve(in1, in2, mode='same')\<close>, from its documentation: the full
  discrete convolution \<open>full[k] = \<Sum>m. in1[k - m] * in2[m]\<close>, cut to the shape of
  \<open>in1\<close> and centred in the full output, which starts at offset
  \<open>(shape2 - 1) div 2\<close> on every axis. An input without elements gives an empty array.
\<close>

definition src_index :: "nat list \<Rightarrow> nat list \<Rightarrow> nat list \<Rightarrow> int list" where
  "src_index shp2 i m =
     map (\<lambda>(s, i, m). int i + int ((s - 1) div 2) - int m) (zip shp2 (zip i m))"

definition convolve_same :: "ndarray \<Rightarrow> ndarray \<Rightarrow> ndarray" where
  "convolve_same in1 in2 =
     (if prod_list (fst in1) = 0 \<or> prod_list (fst in2) = 0 then ([0], [])
      else (fst in1,
            map (\<lambda>i. sum_list (map (\<lambda>m. at_or_zero in1 (src_index (fst in2) i m)
                                          * snd in2 ! ravel (fst in2) m)
                                   (indices (fst in2))))
                (indices (fst in1))))"

text \<open>
  \<open>np.linspace(start, stop, num)\<close> with the default end point: \<open>num\<close> samples
  \<open>start + j * step\<close>, the last one set to \<open>stop\<close>; a negative \<open>num\<close> raises.
\<close>

definition linspace :: "npfloat \<Rightarrow> npfloat \<Rightarrow> int \<Rightarrow> error + npfloat list" where
  "linspace start stop num =
     (if num < 0 then Inl LinspaceValueError
      else let n = nat num;
               dv = num - 1;
               delta = np_sub stop start;
               step = (if 0 < dv then np_div delta (Fin (of_int dv)) else delta);
               y = map (\<lambda>j. np_add (np_mul (Fin (real j)) step) start) [0..<n]
           in Inr (if 1 < n then y[n - 1 := stop] else y))"

text \<open>
  Modelled from the spec: \<open>KDEpy.utils.cartesian\<close>, which is not among the sources.
  "cartesian(per-axis sequences) -> all-combinations matrix, last axis fastest-varying".
\<close>

definition cartesian :: "'a list list \<Rightarrow> 'a list list" where
  "cartesian axes = product_lists axes"

text \<open>The first exception of a list comprehension ends it.\<close>

fun sequence_err :: "(error + 'a) list \<Rightarrow> error + 'a list" where
  "sequence_err [] = Inr []"
| "sequence_err (Inl e # _) = Inl e"
| "sequence_err (Inr x # rs) = (case sequence_err rs of Inl e \<Rightarrow> Inl e | Inr xs \<Rightarrow> Inr (x # xs))"

section \<open>The estimator\<close>

text \<open>
  The kernel object as \<open>evaluate\<close> uses it: the attributes \<open>finite_support\<close> and
  \<open>support\<close>, the method \<open>practical_support(bw)\<close> and the call
  \<open>kernel(points, bw=..., norm=...)\<close>. The kernel catalogue is outside this module,
  so the four are fields of arbitrary value.
\<close>

record kernel =
  finite_support :: bool
  support :: real
  practical_support :: "npfloat \<Rightarrow> npfloat"
  kernel_call :: "npfloat list list \<Rightarrow> npfloat \<Rightarrow> pyval \<Rightarrow> real list"

text \<open>The attribute \<open>self.bw\<close>: a callable (a bandwidth rule) or any other value.\<close>

datatype bw_spec = Callable "array2 \<Rightarrow> npfloat" | Value pyval

text \<open>
  The attributes of an instance. \<open>norm_p\<close> is the attribute \<open>norm\<close>; \<open>grid_points\<close> is
  unset until the first call of \<open>evaluate\<close>.
\<close>

record fftkde =
  kernel :: kernel
  bw :: bw_spec
  norm_p :: pyval
  data :: array2
  weights :: "real list option"
  grid_points :: "array2 option"

text \<open>The argument of \<open>evaluate\<close>: \<open>None\<close>, an integer, a tuple, or an explicit grid.\<close>

datatype grid_request = NoGrid | NumPoints nat | PerAxis "nat list" | Explicit array2

datatype kde_output = Density "real list" | GridAndDensity array2 "real list"

fun density_of :: "kde_output \<Rightarrow> real list" where
  "density_of (Density y) = y"
| "density_of (GridAndDensity x y) = y"

text \<open>
  The collaborators of \<open>evaluate\<close> that live outside this module:
  \<open>BaseKDE.evaluate\<close>, which builds or verifies the grid and sets \<open>self.grid_points\<close>,
  and \<open>KDEpy.binning.linear_binning\<close>. Both may raise: \<open>None\<close>.
\<close>

record collab =
  base_evaluate :: "grid_request \<Rightarrow> array2 \<Rightarrow> array2 option"
  linear_binning :: "array2 \<Rightarrow> array2 \<Rightarrow> real list option \<Rightarrow> real list option"

text \<open>What a call of \<open>evaluate\<close> asks of its collaborators, in order.\<close>

datatype event =
    RuleCalled
  | BinningCalled
  | KernelCalled "npfloat list list"
  | ConvolveCalled

text \<open>\<open>isinstance(v, numbers.Number) and v > 0\<close> (lines 70 and 133).\<close>

fun positive_number :: "pyval \<Rightarrow> bool" where
  "positive_number (Num x) = np_lt (Fin 0) x"
| "positive_number NotNumber = False"

text \<open>
  \<open>__init__\<close> (lines 67 to 70). The constructor of the base class, which checks the
  kernel and the bandwidth and sets both attributes, is a parameter (\<open>None\<close> when it
  raises). No data is stored before \<open>fit\<close>.
\<close>

definition init ::
  "('k \<Rightarrow> 'b \<Rightarrow> (kernel \<times> bw_spec) option) \<Rightarrow> 'k \<Rightarrow> 'b \<Rightarrow> pyval \<Rightarrow> error + fftkde" where
  "init base_init kernel_arg bw_arg norm_arg =
     (case base_init kernel_arg bw_arg of
        None \<Rightarrow> Inl BaseInitError
      | Some (ker, b) \<Rightarrow>
          if positive_number norm_arg
          then Inr \<lparr>kernel = ker, bw = b, norm_p = norm_arg, data = [], weights = None,
                    grid_points = None\<rparr>
          else Inl AssertionError)"

text \<open>Lines 131 to 136: the bandwidth used by this call, and whether a rule was run.\<close>

definition resolve_bw :: "fftkde \<Rightarrow> error + npfloat \<times> event list" where
  "resolve_bw self =
     (case bw self of
        Callable rule \<Rightarrow> Inr (rule (data self), [RuleCalled])
      | Value v \<Rightarrow>
          (case v of
             Num x \<Rightarrow> if np_lt (Fin 0) x then Inr (x, []) else Inl BwValueError
           | NotNumber \<Rightarrow> Inl BwValueError))"

text \<open>Lines 144 to 151.\<close>

definition g_shape :: "array2 \<Rightarrow> nat" where
  "g_shape g = (case g of [] \<Rightarrow> 0 | r # _ \<Rightarrow> length r)"

definition num_grid_points :: "array2 \<Rightarrow> nat list" where
  "num_grid_points g = map (\<lambda>i. length (remdups (col i g))) [0..<g_shape g]"

definition min_grid :: "array2 \<Rightarrow> real list" where
  "min_grid g = map (\<lambda>i. Min (set (col i g))) [0..<g_shape g]"

definition max_grid :: "array2 \<Rightarrow> real list" where
  "max_grid g = map (\<lambda>i. Max (set (col i g))) [0..<g_shape g]"

definition num_intervals :: "array2 \<Rightarrow> int list" where
  "num_intervals g = map (\<lambda>m. int m - 1) (num_grid_points g)"

definition dx :: "array2 \<Rightarrow> npfloat list" where
  "dx g = map2 (\<lambda>ext ni. np_div (Fin ext) (Fin (of_int ni)))
               (map2 (\<lambda>hi lo. hi - lo) (max_grid g) (min_grid g)) (num_intervals g)"

text \<open>Lines 154 to 157.\<close>

definition real_bw :: "kernel \<Rightarrow> npfloat \<Rightarrow> npfloat" where
  "real_bw ker b =
     (if finite_support ker then np_mul (Fin (support ker)) b else practical_support ker b)"

text \<open>Line 160, and the assertion of line 161.\<close>

definition footprint :: "kernel \<Rightarrow> npfloat \<Rightarrow> array2 \<Rightarrow> npfloat list" where
  "footprint ker b g =
     map2 (\<lambda>h ni. np_minimum (np_floor (np_div (real_bw ker b) h)) (Fin (of_int ni)))
          (dx g) (num_intervals g)"

definition footprint_ok :: "kernel \<Rightarrow> npfloat \<Rightarrow> array2 \<Rightarrow> bool" where
  "footprint_ok ker b g =
     list_all (\<lambda>(h, l). np_lt (np_mul h l) (real_bw ker b)) (zip (dx g) (footprint ker b g))"

text \<open>Lines 164 and 170: \<open>int(L * 2 + 1)\<close> per axis, and the grid of one axis.\<close>

definition footprint_num :: "npfloat \<Rightarrow> error + int" where
  "footprint_num l = py_int (np_add (np_mul l (Fin 2)) (Fin 1))"

definition axis_grid :: "npfloat \<Rightarrow> npfloat \<Rightarrow> error + npfloat list" where
  "axis_grid h l =
     (case footprint_num l of
        Inl e \<Rightarrow> Inl e
      | Inr num \<Rightarrow> linspace (np_mul (np_neg h) l) (np_mul h l) num)"

text \<open>
  Step 2 (lines 144 to 170): the kernel weights on the footprint, in footprint shape.
  \<open>np.min\<close> of a grid without rows raises.
\<close>

definition kernel_weights ::
  "kernel \<Rightarrow> npfloat \<Rightarrow> pyval \<Rightarrow> array2 \<Rightarrow> (error + ndarray) \<times> event list" where
  "kernel_weights ker b nrm g =
     (if g = [] then (Inl EmptyReductionError, [])
      else if \<not> footprint_ok ker b g then (Inl AssertionError, [])
      else
        (case sequence_err (map2 axis_grid (dx g) (footprint ker b g)) of
           Inl e \<Rightarrow> (Inl e, [])
         | Inr grids \<Rightarrow>
             let kernel_grid = cartesian grids;
                 kw = kernel_call ker kernel_grid b nrm
             in (case sequence_err (map footprint_num (footprint ker b g)) of
                   Inl e \<Rightarrow> (Inl e, [KernelCalled kernel_grid])
                 | Inr shp \<Rightarrow> (reshape kw (map nat shp), [KernelCalled kernel_grid]))))"

text \<open>
  Modelled from the spec: \<open>BaseKDE._evalate_return_logic\<close>, which is not among the
  sources. "evaluate(...) -> density array, or (grid, density) pair when no grid was
  supplied", one value per grid point.
\<close>

definition evalate_return_logic :: "grid_request \<Rightarrow> real list \<Rightarrow> array2 \<Rightarrow> kde_output" where
  "evalate_return_logic req evaluated g =
     (case req of Explicit _ \<Rightarrow> Density evaluated | _ \<Rightarrow> GridAndDensity g evaluated)"

text \<open>
  \<open>evaluate\<close> (lines 128 to 175). The result comes with the instance as the call leaves
  it, also when the call raises, and with the calls made to the collaborators.
\<close>

definition evaluate ::
  "collab \<Rightarrow> grid_request \<Rightarrow> fftkde \<Rightarrow> (error + kde_output) \<times> fftkde \<times> event list" where
  "evaluate env req self =
     (case base_evaluate env req (data self) of
        None \<Rightarrow> (Inl InvalidGridError, self, [])
      | Some g \<Rightarrow>
          let self1 = self\<lparr>grid_points := Some g\<rparr> in
          (case resolve_bw self1 of
             Inl e \<Rightarrow> (Inl e, self1, [])
           | Inr (b, ev) \<Rightarrow>
               let self2 = self1\<lparr>bw := Value (Num b)\<rparr> in
               (case linear_binning env (data self2) g (weights self2) of
                  None \<Rightarrow> (Inl BinningError, self2, ev @ [BinningCalled])
                | Some binned \<Rightarrow>
                    (case kernel_weights (kernel self2) b (norm_p self2) g of
                       (Inl e, ev2) \<Rightarrow> (Inl e, self2, ev @ [BinningCalled] @ ev2)
                     | (Inr kw, ev2) \<Rightarrow>
                         (case reshape binned (num_grid_points g) of
                            Inl e \<Rightarrow> (Inl e, self2, ev @ [BinningCalled] @ ev2)
                          | Inr dat \<Rightarrow>
                              (Inr (evalate_return_logic req (snd (convolve_same dat kw)) g),
                               self2, ev @ [BinningCalled] @ ev2 @ [ConvolveCalled]))))))"


section \<open>The grid verification of the base class\<close>

text \<open>
  Modelled from the spec: the verification of an explicit grid in \<open>BaseKDE.evaluate\<close>,
  which is not among the sources. "Explicit grid supplied: verify cartesian-product
  structure and per-axis equidistance within floating tolerance; fails with
  InvalidGridError otherwise". The axes are the sorted distinct values of the columns;
  the tolerance and the construction of a grid that was not supplied are parameters.
\<close>

definition grid_axes :: "array2 \<Rightarrow> real list list" where
  "grid_axes g = map (\<lambda>i. sort (remdups (col i g))) [0..<g_shape g]"

definition is_equidistant :: "real \<Rightarrow> real list \<Rightarrow> bool" where
  "is_equidistant tol xs =
     (case xs of
        a # b # rest \<Rightarrow> list_all (\<lambda>(u, v). \<bar>(v - u) - (b - a)\<bar> \<le> tol) (zip xs (tl xs))
      | _ \<Rightarrow> True)"

definition verify_grid :: "real \<Rightarrow> array2 \<Rightarrow> bool" where
  "verify_grid tol g = (g = cartesian (grid_axes g) \<and> list_all (is_equidistant tol) (grid_axes g))"

definition base_evaluate_spec ::
  "real \<Rightarrow> (grid_request \<Rightarrow> array2 \<Rightarrow> array2 option) \<Rightarrow> grid_request \<Rightarrow> array2 \<Rightarrow> array2 option" where
  "base_evaluate_spec tol autogrid req dat =
     (case req of
        Explicit g \<Rightarrow> if verify_grid tol g then Some g else None
      | _ \<Rightarrow> autogrid req dat)"

section \<open>The footprint in the specification's words\<close>





text \<open>
  The footprint grid of one axis in the specification's words: \<open>2 * L + 1\<close> points,
  symmetric about zero, with spacing \<open>dx\<close>.
\<close>

definition footprint_axis :: "real \<Rightarrow> nat \<Rightarrow> npfloat list" where
  "footprint_axis h l = map (\<lambda>j. Fin ((real j - real l) * h)) [0..<2 * l + 1]"

definition symmetric_axis :: "npfloat list \<Rightarrow> bool" where
  "symmetric_axis xs = (xs = map np_neg (rev xs))"

definition constant_spacing :: "real \<Rightarrow> npfloat list \<Rightarrow> bool" where
  "constant_spacing h xs = list_all (\<lambda>(u, v). np_sub v u = Fin h) (zip xs (tl xs))"

text \<open>The spacings and the footprint counts read as numbers, once they are finite.\<close>

definition the_fin :: "npfloat \<Rightarrow> real" where
  "the_fin a = (case a of Fin x \<Rightarrow> x | _ \<Rightarrow> 0)"

definition spacings :: "array2 \<Rightarrow> real list" where
  "spacings g = map the_fin (dx g)"

definition footprint_steps :: "kernel \<Rightarrow> npfloat \<Rightarrow> array2 \<Rightarrow> nat list" where
  "footprint_steps ker b g = map (\<lambda>a. nat \<lfloor>the_fin a\<rfloor>) (footprint ker b g)"

definition footprint_grids :: "kernel \<Rightarrow> npfloat \<Rightarrow> array2 \<Rightarrow> npfloat list list" where
  "footprint_grids ker b g = map2 footprint_axis (spacings g) (footprint_steps ker b g)"

definition footprint_shape :: "kernel \<Rightarrow> npfloat \<Rightarrow> array2 \<Rightarrow> nat list" where
  "footprint_shape ker b g = map (\<lambda>l. 2 * l + 1) (footprint_steps ker b g)"

text \<open>
  Centred alignment: the node whose mass the kernel point \<open>m\<close> of the footprint
  multiplies in the density of node \<open>i\<close>, that is \<open>i - (m - L)\<close> on every axis.
\<close>

definition centred_index :: "nat list \<Rightarrow> nat list \<Rightarrow> nat list \<Rightarrow> int list" where
  "centred_index ls i m = map (\<lambda>(l, j, k). int j + int l - int k) (zip ls (zip i m))"

fun is_kernel_call :: "event \<Rightarrow> bool" where
  "is_kernel_call (KernelCalled pts) = True"
| "is_kernel_call _ = False"

section \<open>Example inputs\<close>

text \<open>
  A kernel of finite support 3 (a product of triangles, scaled by the bandwidth), a
  kernel of unbounded support with practical support \<open>4 * bw\<close>, a binning routine that
  puts the weight of a data point on the grid node it sits on (unit weights when none
  are given), and a base class that accepts the grids it is handed.
\<close>

definition triangle :: "npfloat \<Rightarrow> npfloat list \<Rightarrow> real" where
  "triangle b p =
     prod_list (map (\<lambda>c. case np_div c b of Fin u \<Rightarrow> max 0 (1 - \<bar>u\<bar> / 3) | _ \<Rightarrow> 0) p)"

definition example_kernel :: kernel where
  "example_kernel =
     \<lparr>finite_support = True, support = 3, practical_support = (\<lambda>b. np_mul (Fin 4) b),
      kernel_call = (\<lambda>pts b n. map (triangle b) pts)\<rparr>"


definition node_binning :: "array2 \<Rightarrow> array2 \<Rightarrow> real list option \<Rightarrow> real list option" where
  "node_binning dat g w =
     (let ws = (case w of None \<Rightarrow> replicate (length dat) 1 | Some ws \<Rightarrow> ws)
      in Some (map (\<lambda>r. sum_list (map2 (\<lambda>p wt. if p = r then wt else 0) dat ws)) g))"

definition example_env :: collab where
  "example_env =
     \<lparr>base_evaluate = base_evaluate_spec (1 / 1000) (\<lambda>req dat. None),
      linear_binning = node_binning\<rparr>"

definition example_kde :: fftkde where
  "example_kde =
     \<lparr>kernel = example_kernel, bw = Value (Num (Fin 1)), norm_p = Num (Fin 2),
      data = [[1 / 3], [1]], weights = None, grid_points = None\<rparr>"

text \<open>
  The four-point grid on \<open>[-1, 1]\<close>, the grid \<open>[0, 1, 3, 4]\<close>, and a grid in two
  dimensions whose first axis has a single point.
\<close>

definition grid4 :: array2 where
  "grid4 = [[- 1], [- 1 / 3], [1 / 3], [1]]"

definition grid0134 :: array2 where
  "grid0134 = [[0], [1], [3], [4]]"

definition grid_flat :: array2 where
  "grid_flat = [[0, 0], [0, 1], [0, 2]]"

text \<open>The unit square as a grid of two points per axis, and a sample on one of its nodes.\<close>

definition grid22 :: array2 where
  "grid22 = [[0, 0], [0, 1], [1, 0], [1, 1]]"

definition example_kde2 :: fftkde where
  "example_kde2 = example_kde\<lparr>data := [[0, 1]]\<rparr>"

text \<open>
  Two bandwidth rules, one that returns zero (as a rule of thumb does on data without
  spread) and one that returns one half, and a base constructor that accepts its
  arguments.
\<close>

definition zero_rule :: "array2 \<Rightarrow> npfloat" where
  "zero_rule dat = Fin 0"

definition half_rule :: "array2 \<Rightarrow> npfloat" where
  "half_rule dat = Fin (1 / 2)"

definition accepting_init :: "string \<Rightarrow> npfloat \<Rightarrow> (kernel \<times> bw_spec) option" where
  "accepting_init k b = Some (example_kernel, Value (Num b))"

section \<open>Construction\<close>

text \<open>
  Claim C9. When the constructor of the base class accepts the kernel and the
  bandwidth, constructing the estimator with a \<open>norm\<close> that is not a positive number
  fails with an assertion error, and with a positive number it succeeds and stores that
  \<open>norm\<close> unchanged.
\<close>

theorem init_norm:
  assumes "base_init k b = Some (ker, bv)"
  shows "(\<not> positive_number n \<longrightarrow> init base_init k b n = Inl AssertionError) \<and>
         (positive_number n \<longrightarrow> (\<exists>self. init base_init k b n = Inr self \<and> norm_p self = n))"
  using assms by (simp add: init_def)

theorem init_norm_witness:
  "init accepting_init ''gaussian'' (Fin 1) (Num (Fin 0))
     = Inl AssertionError
   \<and> init accepting_init ''gaussian'' (Fin 1) NotNumber
     = Inl AssertionError
   \<and> (\<exists>self. init accepting_init ''gaussian'' (Fin 1)
                 (Num (Fin 2)) = Inr self
        \<and> norm_p self = Num (Fin 2))"
  using init_norm [of accepting_init "''gaussian''" "Fin 1"
                      example_kernel "Value (Num (Fin 1))" "Num (Fin 0)"]
        init_norm [of accepting_init "''gaussian''" "Fin 1"
                      example_kernel "Value (Num (Fin 1))" "NotNumber"]
        init_norm [of accepting_init "''gaussian''" "Fin 1"
                      example_kernel "Value (Num (Fin 1))" "Num (Fin 2)"]
  by (simp add: accepting_init_def)

section \<open>The grid quantities\<close>

lemma length_num_grid_points [simp]: "length (num_grid_points g) = g_shape g"
  by (simp add: num_grid_points_def)

lemma length_num_intervals [simp]: "length (num_intervals g) = g_shape g"
  by (simp add: num_intervals_def)

lemma length_dx [simp]: "length (dx g) = g_shape g"
  by (simp add: dx_def min_grid_def max_grid_def)

lemma length_footprint [simp]: "length (footprint ker b g) = g_shape g"
  by (simp add: footprint_def)

lemma num_grid_points_nth:
  "i < g_shape g \<Longrightarrow> num_grid_points g ! i = card (set (col i g))"
  by (simp add: num_grid_points_def length_remdups_card_conv)

lemma num_intervals_nth:
  "i < g_shape g \<Longrightarrow> num_intervals g ! i = int (card (set (col i g))) - 1"
  by (simp add: num_intervals_def num_grid_points_nth)

lemma dx_nth:
  "i < g_shape g \<Longrightarrow>
   dx g ! i = np_div (Fin (Max (set (col i g)) - Min (set (col i g))))
                     (Fin (of_int (num_intervals g ! i)))"
  by (simp add: dx_def min_grid_def max_grid_def)

lemma footprint_nth:
  "i < g_shape g \<Longrightarrow>
   footprint ker b g ! i =
     np_minimum (np_floor (np_div (real_bw ker b) (dx g ! i))) (Fin (of_int (num_intervals g ! i)))"
  by (simp add: footprint_def)

lemma col_nonempty: "g \<noteq> [] \<Longrightarrow> col i g \<noteq> []"
  by (simp add: col_def)

lemma card_col_pos: "g \<noteq> [] \<Longrightarrow> 0 < card (set (col i g))"
  by (simp add: col_nonempty card_gt_0_iff)

lemma Max_Min_eq_iff_card:
  fixes A :: "real set"
  assumes "finite A" "A \<noteq> {}"
  shows "Max A = Min A \<longleftrightarrow> card A = 1"
proof
  assume eq: "Max A = Min A"
  have "\<And>x. x \<in> A \<Longrightarrow> x = Min A"
  proof -
    fix x assume "x \<in> A"
    then have "Min A \<le> x" "x \<le> Max A" using assms by auto
    with eq show "x = Min A" by simp
  qed
  moreover have "Min A \<in> A" using assms by simp
  ultimately have "A = {Min A}" by blast
  then have "card A = card {Min A}" by simp
  then show "card A = 1" by simp
next
  assume "card A = 1"
  then obtain x where "A = {x}" by (auto simp: card_1_singleton_iff)
  then show "Max A = Min A" by simp
qed

lemma dx_cases:
  assumes "g \<noteq> []" "i < g_shape g"
  shows "(num_grid_points g ! i = 1 \<and> dx g ! i = NaN) \<or>
         (2 \<le> num_grid_points g ! i \<and> (\<exists>h. 0 < h \<and> dx g ! i = Fin h))"
proof -
  let ?A = "set (col i g)"
  have fin: "finite ?A" and ne: "?A \<noteq> {}" using assms by (simp_all add: col_nonempty)
  have pos: "0 < card ?A" using assms by (simp add: card_col_pos)
  show ?thesis
  proof (cases "card ?A = 1")
    case True
    then have "Max ?A = Min ?A" using Max_Min_eq_iff_card [OF fin ne] by simp
    with True assms show ?thesis
      by (simp add: dx_nth num_intervals_nth num_grid_points_nth signed_inf_def)
  next
    case False
    with pos have two: "2 \<le> card ?A" by simp
    have "Max ?A \<noteq> Min ?A" using False Max_Min_eq_iff_card [OF fin ne] by simp
    moreover have "Min ?A \<le> Max ?A" using fin ne by simp
    ultimately have lt: "Min ?A < Max ?A" by simp
    have "dx g ! i = Fin ((Max ?A - Min ?A) / (real (card ?A) - 1))"
      using two assms by (simp add: dx_nth num_intervals_nth)
    moreover have "0 < (Max ?A - Min ?A) / (real (card ?A) - 1)"
      using lt two by simp
    ultimately show ?thesis using two assms by (auto simp: num_grid_points_nth)
  qed
qed

section \<open>The footprint\<close>

lemma np_minimum_Fin [simp]: "np_minimum (Fin x) (Fin y) = Fin (min x y)"
  by (simp add: np_minimum_def min_def)



section \<open>The steps of evaluate\<close>

lemma resolve_bw_grid_points [simp]:
  "resolve_bw (self\<lparr>grid_points := gp\<rparr>) = resolve_bw self"
  by (simp add: resolve_bw_def split: bw_spec.splits)

lemma evaluate_base_None:
  "base_evaluate env req (data self) = None \<Longrightarrow> evaluate env req self = (Inl InvalidGridError, self, [])"
  by (simp add: evaluate_def)

lemma evaluate_bw_Inl:
  "base_evaluate env req (data self) = Some g \<Longrightarrow> resolve_bw self = Inl e \<Longrightarrow>
   evaluate env req self = (Inl e, self\<lparr>grid_points := Some g\<rparr>, [])"
  by (simp add: evaluate_def)

lemma evaluate_binning_None:
  "base_evaluate env req (data self) = Some g \<Longrightarrow> resolve_bw self = Inr (b, ev) \<Longrightarrow>
   linear_binning env (data self) g (weights self) = None \<Longrightarrow>
   evaluate env req self =
     (Inl BinningError, self\<lparr>grid_points := Some g, bw := Value (Num b)\<rparr>, ev @ [BinningCalled])"
  by (simp add: evaluate_def)

lemma evaluate_kernel_Inl:
  "base_evaluate env req (data self) = Some g \<Longrightarrow> resolve_bw self = Inr (b, ev) \<Longrightarrow>
   linear_binning env (data self) g (weights self) = Some binned \<Longrightarrow>
   kernel_weights (kernel self) b (norm_p self) g = (Inl e, ev2) \<Longrightarrow>
   evaluate env req self =
     (Inl e, self\<lparr>grid_points := Some g, bw := Value (Num b)\<rparr>, ev @ [BinningCalled] @ ev2)"
  by (simp add: evaluate_def)

lemma evaluate_reshape_Inl:
  "base_evaluate env req (data self) = Some g \<Longrightarrow> resolve_bw self = Inr (b, ev) \<Longrightarrow>
   linear_binning env (data self) g (weights self) = Some binned \<Longrightarrow>
   kernel_weights (kernel self) b (norm_p self) g = (Inr kw, ev2) \<Longrightarrow>
   reshape binned (num_grid_points g) = Inl e \<Longrightarrow>
   evaluate env req self =
     (Inl e, self\<lparr>grid_points := Some g, bw := Value (Num b)\<rparr>, ev @ [BinningCalled] @ ev2)"
  by (simp add: evaluate_def)

lemma evaluate_success:
  "base_evaluate env req (data self) = Some g \<Longrightarrow> resolve_bw self = Inr (b, ev) \<Longrightarrow>
   linear_binning env (data self) g (weights self) = Some binned \<Longrightarrow>
   kernel_weights (kernel self) b (norm_p self) g = (Inr kw, ev2) \<Longrightarrow>
   reshape binned (num_grid_points g) = Inr dat \<Longrightarrow>
   evaluate env req self =
     (Inr (evalate_return_logic req (snd (convolve_same dat kw)) g),
      self\<lparr>grid_points := Some g, bw := Value (Num b)\<rparr>, ev @ [BinningCalled] @ ev2 @ [ConvolveCalled])"
  by (simp add: evaluate_def)

text \<open>Inversion: a call that returns went through every step.\<close>

lemma evaluate_Inr_D:
  assumes "fst (evaluate env req self) = Inr out"
  obtains g b ev binned kw ev2 dat where
    "base_evaluate env req (data self) = Some g"
    "resolve_bw self = Inr (b, ev)"
    "linear_binning env (data self) g (weights self) = Some binned"
    "kernel_weights (kernel self) b (norm_p self) g = (Inr kw, ev2)"
    "reshape binned (num_grid_points g) = Inr dat"
    "out = evalate_return_logic req (snd (convolve_same dat kw)) g"
    "evaluate env req self =
       (Inr out, self\<lparr>grid_points := Some g, bw := Value (Num b)\<rparr>,
        ev @ [BinningCalled] @ ev2 @ [ConvolveCalled])"
proof (cases "base_evaluate env req (data self)")
  case None
  with assms show ?thesis by (simp add: evaluate_base_None)
next
  case (Some g)
  note g = this
  show ?thesis
  proof (cases "resolve_bw self")
    case (Inl e)
    with g assms show ?thesis by (simp add: evaluate_bw_Inl)
  next
    case (Inr p)
    obtain b ev where p: "p = (b, ev)" by (cases p)
    note rb = Inr [unfolded p]
    show ?thesis
    proof (cases "linear_binning env (data self) g (weights self)")
      case None
      with g rb assms show ?thesis by (simp add: evaluate_binning_None)
    next
      case (Some binned)
      note bn = this
      obtain r ev2 where kw: "kernel_weights (kernel self) b (norm_p self) g = (r, ev2)"
        by (cases "kernel_weights (kernel self) b (norm_p self) g")
      show ?thesis
      proof (cases r)
        case (Inl e)
        with g rb bn kw assms show ?thesis by (simp add: evaluate_kernel_Inl)
      next
        case (Inr kwv)
        note kw' = kw [unfolded Inr]
        show ?thesis
        proof (cases "reshape binned (num_grid_points g)")
          case (Inl e)
          with g rb bn kw' assms show ?thesis by (simp add: evaluate_reshape_Inl)
        next
          case (Inr dat)
          have ev: "evaluate env req self =
            (Inr (evalate_return_logic req (snd (convolve_same dat kwv)) g),
             self\<lparr>grid_points := Some g, bw := Value (Num b)\<rparr>, ev @ [BinningCalled] @ ev2 @ [ConvolveCalled])"
            by (rule evaluate_success [OF g rb bn kw' Inr])
          with assms have "out = evalate_return_logic req (snd (convolve_same dat kwv)) g" by simp
          with ev that [OF g rb bn kw' Inr] show ?thesis by simp
        qed
      qed
    qed
  qed
qed

lemma sequence_err_Inl: "sequence_err rs = Inl e \<Longrightarrow> Inl e \<in> set rs"
  by (induction rs rule: sequence_err.induct) (auto split: sum.splits)

lemma py_int_Inl: "py_int a = Inl e \<Longrightarrow> e = IntConversionError"
  by (cases a) simp_all

lemma footprint_num_Inl: "footprint_num l = Inl e \<Longrightarrow> e = IntConversionError"
  unfolding footprint_num_def by (rule py_int_Inl)

lemma linspace_Inl: "linspace a b n = Inl e \<Longrightarrow> e = LinspaceValueError"
  by (simp add: linspace_def Let_def split: if_splits)

lemma axis_grid_Inl: "axis_grid h l = Inl e \<Longrightarrow> e = IntConversionError \<or> e = LinspaceValueError"
  by (auto simp: axis_grid_def split: sum.splits dest: footprint_num_Inl linspace_Inl)

lemma reshape_Inl: "reshape xs shp = Inl e \<Longrightarrow> e = ReshapeValueError"
  by (simp add: reshape_def split: if_splits)

lemma kernel_weights_errors:
  assumes "fst (kernel_weights ker b nrm g) = Inl e"
  shows "e \<in> {EmptyReductionError, AssertionError, IntConversionError, LinspaceValueError,
              ReshapeValueError}"
proof -
  have a: "\<And>e. sequence_err (map2 axis_grid (dx g) (footprint ker b g)) = Inl e \<Longrightarrow>
              e = IntConversionError \<or> e = LinspaceValueError"
    by (drule sequence_err_Inl) (auto dest: axis_grid_Inl [OF sym])
  have b: "\<And>e. sequence_err (map footprint_num (footprint ker b g)) = Inl e \<Longrightarrow>
              e = IntConversionError"
    by (drule sequence_err_Inl) (auto dest: footprint_num_Inl [OF sym])
  from assms show ?thesis
    by (auto simp: kernel_weights_def Let_def split: if_splits sum.splits
             dest: a b reshape_Inl)
qed

lemma kernel_weights_events:
  "snd (kernel_weights ker b nrm g) = [] \<or> (\<exists>pts. snd (kernel_weights ker b nrm g) = [KernelCalled pts])"
  by (simp add: kernel_weights_def Let_def split: sum.splits)

lemma resolve_bw_events: "resolve_bw self = Inr (b, ev) \<Longrightarrow> ev = [] \<or> ev = [RuleCalled]"
  by (auto simp: resolve_bw_def split: bw_spec.splits pyval.splits if_splits)

lemma resolve_bw_Value_events: "bw self = Value v \<Longrightarrow> resolve_bw self = Inr (b, ev) \<Longrightarrow> ev = []"
  by (auto simp: resolve_bw_def split: pyval.splits if_splits)

lemma resolve_bw_Inl_iff:
  "(\<exists>e. resolve_bw self = Inl e) \<longleftrightarrow> (\<exists>v. bw self = Value v \<and> \<not> positive_number v)"
  by (cases "bw self") (auto simp: resolve_bw_def split: pyval.splits)

lemma resolve_bw_Inl: "resolve_bw self = Inl e \<Longrightarrow> e = BwValueError"
  by (auto simp: resolve_bw_def split: bw_spec.splits pyval.splits if_splits)

lemma evaluate_resolved:
  assumes g: "base_evaluate env req (data self) = Some g"
      and rb: "resolve_bw self = Inr (b, ev)"
  shows "fst (snd (evaluate env req self)) = self\<lparr>grid_points := Some g, bw := Value (Num b)\<rparr>"
    and "fst (evaluate env req self) \<noteq> Inl BwValueError"
    and "\<exists>ev2. snd (snd (evaluate env req self)) = ev @ BinningCalled # ev2 \<and> RuleCalled \<notin> set ev2"
proof -
  let ?s = "self\<lparr>grid_points := Some g, bw := Value (Num b)\<rparr>"
  have "fst (snd (evaluate env req self)) = ?s
        \<and> fst (evaluate env req self) \<noteq> Inl BwValueError
        \<and> (\<exists>ev2. snd (snd (evaluate env req self)) = ev @ BinningCalled # ev2 \<and> RuleCalled \<notin> set ev2)"
  proof (cases "linear_binning env (data self) g (weights self)")
    case None
    show ?thesis by (simp add: evaluate_binning_None [OF g rb None])
  next
    case (Some binned)
    obtain r ev2 where kw: "kernel_weights (kernel self) b (norm_p self) g = (r, ev2)"
      by (cases "kernel_weights (kernel self) b (norm_p self) g")
    have ev2: "RuleCalled \<notin> set ev2"
      using kernel_weights_events [of "kernel self" b "norm_p self" g] kw by auto
    show ?thesis
    proof (cases r)
      case (Inl e)
      have "e \<noteq> BwValueError"
        using kernel_weights_errors [of "kernel self" b "norm_p self" g e] kw Inl by auto
      then show ?thesis
        using ev2 by (simp add: evaluate_kernel_Inl [OF g rb Some kw [unfolded Inl]])
    next
      case (Inr kwv)
      note kw' = kw [unfolded Inr]
      show ?thesis
      proof (cases "reshape binned (num_grid_points g)")
        case (Inl e)
        then have "e \<noteq> BwValueError" by (auto dest: reshape_Inl)
        then show ?thesis
          using ev2 by (simp add: evaluate_reshape_Inl [OF g rb Some kw' Inl])
      next
        case (Inr dat)
        show ?thesis
          using ev2 by (simp add: evaluate_success [OF g rb Some kw' Inr])
      qed
    qed
  qed
  then show "fst (snd (evaluate env req self)) = ?s"
    and "fst (evaluate env req self) \<noteq> Inl BwValueError"
    and "\<exists>ev2. snd (snd (evaluate env req self)) = ev @ BinningCalled # ev2 \<and> RuleCalled \<notin> set ev2"
    by blast+
qed

lemma evaluate_Value_no_rule:
  assumes "bw self = Value v"
  shows "RuleCalled \<notin> set (snd (snd (evaluate env req self)))"
proof (cases "base_evaluate env req (data self)")
  case None
  then show ?thesis by (simp add: evaluate_base_None)
next
  case (Some g)
  show ?thesis
  proof (cases "resolve_bw self")
    case (Inl e)
    then show ?thesis by (simp add: evaluate_bw_Inl [OF Some Inl])
  next
    case (Inr p)
    obtain b ev where p: "p = (b, ev)" by (cases p)
    note rb = Inr [unfolded p]
    have "ev = []" using assms rb by (rule resolve_bw_Value_events)
    with evaluate_resolved(3) [OF Some rb] show ?thesis by auto
  qed
qed

lemma evaluate_keeps_attributes:
  "kernel (fst (snd (evaluate env req self))) = kernel self
   \<and> norm_p (fst (snd (evaluate env req self))) = norm_p self
   \<and> data (fst (snd (evaluate env req self))) = data self
   \<and> weights (fst (snd (evaluate env req self))) = weights self"
proof (cases "base_evaluate env req (data self)")
  case None
  then show ?thesis by (simp add: evaluate_base_None)
next
  case (Some g)
  show ?thesis
  proof (cases "resolve_bw self")
    case (Inl e)
    then show ?thesis by (simp add: evaluate_bw_Inl [OF Some Inl])
  next
    case (Inr p)
    obtain b ev where p: "p = (b, ev)" by (cases p)
    note rb = Inr [unfolded p]
    show ?thesis by (simp add: evaluate_resolved(1) [OF Some rb])
  qed
qed

lemma evaluate_grid_points:
  assumes "base_evaluate env req (data self) = Some g"
  shows "grid_points (fst (snd (evaluate env req self))) = Some g"
proof (cases "resolve_bw self")
  case (Inl e)
  then show ?thesis by (simp add: evaluate_bw_Inl [OF assms Inl])
next
  case (Inr p)
  obtain b ev where p: "p = (b, ev)" by (cases p)
  note rb = Inr [unfolded p]
  show ?thesis by (simp add: evaluate_resolved(1) [OF assms rb])
qed

section \<open>The assertion on the footprint\<close>

lemma g_shape_pos_nonempty: "i < g_shape g \<Longrightarrow> g \<noteq> []"
  by (auto simp: g_shape_def)

lemma footprint_ok_nth:
  "footprint_ok ker b g \<longleftrightarrow>
     (\<forall>i<g_shape g. np_lt (np_mul (dx g ! i) (footprint ker b g ! i)) (real_bw ker b))"
  by (simp add: footprint_ok_def list_all_length)

lemma np_lt_NaN_right [simp]: "np_lt a NaN = False"
  by (cases a) simp_all

lemma np_div_NaN_right [simp]: "np_div a NaN = NaN"
  by (cases a) simp_all

lemma np_mul_NaN_right [simp]: "np_mul a NaN = NaN"
  by (cases a) simp_all

lemma nan_axis_not_ok:
  assumes "i < g_shape g" "dx g ! i = NaN"
  shows "\<not> footprint_ok ker b g"
proof -
  have "\<not> np_lt (np_mul (dx g ! i) (footprint ker b g ! i)) (real_bw ker b)"
    using assms by simp
  with assms(1) show ?thesis unfolding footprint_ok_nth by blast
qed

lemma kernel_weights_not_ok:
  "g \<noteq> [] \<Longrightarrow> \<not> footprint_ok ker b g \<Longrightarrow> kernel_weights ker b nrm g = (Inl AssertionError, [])"
  by (simp add: kernel_weights_def)

lemma kernel_weights_Inr_ok:
  "kernel_weights ker b nrm g = (Inr kw, ev2) \<Longrightarrow> g \<noteq> [] \<and> footprint_ok ker b g"
  by (auto simp: kernel_weights_def split: if_splits)



section \<open>The example grids\<close>

lemma verify_grid4: "verify_grid (1 / 1000) grid4"
  by (simp add: verify_grid_def grid4_def grid_axes_def cartesian_def g_shape_def col_def
                is_equidistant_def)

lemma example_base_grid4 [simp]: "base_evaluate example_env (Explicit grid4) dat = Some grid4"
  by (simp add: example_env_def base_evaluate_spec_def verify_grid4)

lemma not_verify_grid0134: "\<not> verify_grid (1 / 1000) grid0134"
  by (simp add: verify_grid_def grid0134_def grid_axes_def cartesian_def g_shape_def col_def
                is_equidistant_def)

lemma verify_grid_flat: "verify_grid (1 / 1000) grid_flat"
  by (simp add: verify_grid_def grid_flat_def grid_axes_def cartesian_def g_shape_def col_def
                is_equidistant_def)

lemma example_base_grid_flat [simp]:
  "base_evaluate example_env (Explicit grid_flat) dat = Some grid_flat"
  by (simp add: example_env_def base_evaluate_spec_def verify_grid_flat)

lemma verify_grid22: "verify_grid (1 / 1000) grid22"
  by (simp add: verify_grid_def grid22_def grid_axes_def cartesian_def g_shape_def col_def
                is_equidistant_def)

lemma example_base_grid22 [simp]: "base_evaluate example_env (Explicit grid22) dat = Some grid22"
  by (simp add: example_env_def base_evaluate_spec_def verify_grid22)

section \<open>The bandwidth\<close>

text \<open>
  Claim C2, as amended. \<open>evaluate\<close> raises the bandwidth error (the \<open>ValueError\<close> of
  line 136) exactly when the grid request was accepted and the stored bandwidth is not
  callable and is not a number greater than zero: a literal that is zero, negative or
  \<open>nan\<close>, or a value that is no number. The output of a callable is not checked: it
  becomes the bandwidth of the call and is stored on the instance whatever its value,
  and so is a literal greater than zero, \<open>inf\<close> included.
\<close>

theorem bw_error_iff:
  "(fst (evaluate env req self) = Inl BwValueError \<longleftrightarrow>
      base_evaluate env req (data self) \<noteq> None \<and> (\<exists>v. bw self = Value v \<and> \<not> positive_number v))
   \<and> (\<forall>rule. bw self = Callable rule \<and> base_evaluate env req (data self) \<noteq> None \<longrightarrow>
          bw (fst (snd (evaluate env req self))) = Value (Num (rule (data self))))
   \<and> (\<forall>x. bw self = Value (Num x) \<and> np_lt (Fin 0) x \<and> base_evaluate env req (data self) \<noteq> None \<longrightarrow>
          bw (fst (snd (evaluate env req self))) = Value (Num x))"
proof (cases "base_evaluate env req (data self)")
  case None
  then show ?thesis by (simp add: evaluate_base_None)
next
  case (Some g)
  show ?thesis
  proof (cases "resolve_bw self")
    case (Inl e)
    then have e: "e = BwValueError" by (rule resolve_bw_Inl)
    have "\<exists>v. bw self = Value v \<and> \<not> positive_number v"
      using Inl resolve_bw_Inl_iff [of self] by blast
    then show ?thesis
      using Some e Inl by (auto simp: evaluate_bw_Inl [OF Some Inl])
  next
    case (Inr p)
    obtain b ev where p: "p = (b, ev)" by (cases p)
    note rb = Inr [unfolded p]
    have no: "\<not> (\<exists>v. bw self = Value v \<and> \<not> positive_number v)"
      using rb resolve_bw_Inl_iff [of self] by auto
    have st: "bw (fst (snd (evaluate env req self))) = Value (Num b)"
      by (simp add: evaluate_resolved(1) [OF Some rb])
    have ne: "fst (evaluate env req self) \<noteq> Inl BwValueError"
      by (rule evaluate_resolved(2) [OF Some rb])
    have r1: "\<And>rule. bw self = Callable rule \<Longrightarrow> b = rule (data self)"
      using rb by (simp add: resolve_bw_def)
    have r2: "\<And>x. bw self = Value (Num x) \<Longrightarrow> b = x"
      using rb by (simp add: resolve_bw_def split: if_splits)
    show ?thesis using no st ne r1 r2 Some by auto
  qed
qed

theorem bw_error_iff_witness:
  "fst (evaluate example_env (Explicit grid4) (example_kde\<lparr>bw := Value (Num NaN)\<rparr>)) = Inl BwValueError
   \<and> fst (evaluate example_env (Explicit grid4) (example_kde\<lparr>bw := Value (Num (Fin 0))\<rparr>)) = Inl BwValueError
   \<and> fst (evaluate example_env (Explicit grid4) (example_kde\<lparr>bw := Value NotNumber\<rparr>)) = Inl BwValueError
   \<and> bw (fst (snd (evaluate example_env (Explicit grid4)
                      (example_kde\<lparr>bw := Callable half_rule\<rparr>)))) = Value (Num (Fin (1 / 2)))
   \<and> bw (fst (snd (evaluate example_env (Explicit grid4) example_kde))) = Value (Num (Fin 1))"
  using bw_error_iff [of example_env "Explicit grid4" "example_kde\<lparr>bw := Value (Num NaN)\<rparr>"]
        bw_error_iff [of example_env "Explicit grid4" "example_kde\<lparr>bw := Value (Num (Fin 0))\<rparr>"]
        bw_error_iff [of example_env "Explicit grid4" "example_kde\<lparr>bw := Value NotNumber\<rparr>"]
        bw_error_iff [of example_env "Explicit grid4" "example_kde\<lparr>bw := Callable half_rule\<rparr>"]
        bw_error_iff [of example_env "Explicit grid4" example_kde]
  by (simp add: example_kde_def half_rule_def)

text \<open>
  The claim as stated fails: a rule whose output is \<open>0\<close> resolves to a scalar that is
  not positive, and \<open>evaluate\<close> raises no bandwidth error (the assertion of line 161
  fails instead); the literal \<open>inf\<close> is not finite, and \<open>evaluate\<close> returns a density.
\<close>

theorem bw_error_counterexample:
  "resolve_bw (example_kde\<lparr>bw := Callable zero_rule\<rparr>) = Inr (Fin 0, [RuleCalled])
   \<and> \<not> np_lt (Fin 0) (Fin 0)
   \<and> fst (evaluate example_env (Explicit grid4) (example_kde\<lparr>bw := Callable zero_rule\<rparr>))
       = Inl AssertionError
   \<and> resolve_bw (example_kde\<lparr>bw := Value (Num PInf)\<rparr>) = Inr (PInf, [])
   \<and> \<not> is_finite PInf
   \<and> fst (evaluate example_env (Explicit grid4) (example_kde\<lparr>bw := Value (Num PInf)\<rparr>))
       = Inr (Density [2, 2, 2, 2])"
  by code_simp

text \<open>
  Claim C7, as amended. A call of \<open>evaluate\<close> leaves the kernel, the norm, the fitted data
  and the weights as they were. Besides the bandwidth it sets \<open>grid_points\<close> to the grid
  of the call. Once the bandwidth step has succeeded, \<open>bw\<close> holds the resolved scalar
  (the output of the rule, unchecked, or the positive literal itself); no later call of
  \<open>evaluate\<close> on the instance runs a bandwidth rule, and when the scalar is positive a
  later call resolves to it again.
\<close>

theorem evaluate_frame:
  "kernel (fst (snd (evaluate env req self))) = kernel self
   \<and> norm_p (fst (snd (evaluate env req self))) = norm_p self
   \<and> data (fst (snd (evaluate env req self))) = data self
   \<and> weights (fst (snd (evaluate env req self))) = weights self
   \<and> (\<forall>g. base_evaluate env req (data self) = Some g \<longrightarrow>
          grid_points (fst (snd (evaluate env req self))) = Some g)
   \<and> (\<forall>g b ev. base_evaluate env req (data self) = Some g \<and> resolve_bw self = Inr (b, ev) \<longrightarrow>
          bw (fst (snd (evaluate env req self))) = Value (Num b)
          \<and> (\<forall>env' req'. RuleCalled \<notin> set (snd (snd (evaluate env' req'
                                                    (fst (snd (evaluate env req self)))))))
          \<and> (np_lt (Fin 0) b \<longrightarrow>
                resolve_bw (fst (snd (evaluate env req self))) = Inr (b, [])))"
proof -
  have "\<And>g b ev. base_evaluate env req (data self) = Some g \<Longrightarrow> resolve_bw self = Inr (b, ev) \<Longrightarrow>
          bw (fst (snd (evaluate env req self))) = Value (Num b)
          \<and> (\<forall>env' req'. RuleCalled \<notin> set (snd (snd (evaluate env' req'
                                                    (fst (snd (evaluate env req self)))))))
          \<and> (np_lt (Fin 0) b \<longrightarrow>
                resolve_bw (fst (snd (evaluate env req self))) = Inr (b, []))"
  proof -
    fix g b ev
    assume g: "base_evaluate env req (data self) = Some g" and rb: "resolve_bw self = Inr (b, ev)"
    have st: "bw (fst (snd (evaluate env req self))) = Value (Num b)"
      by (simp add: evaluate_resolved(1) [OF g rb])
    have "\<forall>env' req'. RuleCalled \<notin> set (snd (snd (evaluate env' req'
                                                    (fst (snd (evaluate env req self))))))"
      by (simp add: evaluate_Value_no_rule [OF st])
    moreover have "np_lt (Fin 0) b \<longrightarrow> resolve_bw (fst (snd (evaluate env req self))) = Inr (b, [])"
      using st by (simp add: resolve_bw_def)
    ultimately show "bw (fst (snd (evaluate env req self))) = Value (Num b)
          \<and> (\<forall>env' req'. RuleCalled \<notin> set (snd (snd (evaluate env' req'
                                                    (fst (snd (evaluate env req self)))))))
          \<and> (np_lt (Fin 0) b \<longrightarrow>
                resolve_bw (fst (snd (evaluate env req self))) = Inr (b, []))"
      using st by blast
  qed
  then show ?thesis
    using evaluate_keeps_attributes [of env req self] evaluate_grid_points [of env req self]
    by blast
qed

theorem evaluate_frame_witness:
  "base_evaluate example_env (Explicit grid4)
       (data (example_kde\<lparr>bw := Callable half_rule\<rparr>)) = Some grid4
   \<and> resolve_bw (example_kde\<lparr>bw := Callable half_rule\<rparr>) = Inr (Fin (1 / 2), [RuleCalled])
   \<and> data (fst (snd (evaluate example_env (Explicit grid4)
                        (example_kde\<lparr>bw := Callable half_rule\<rparr>)))) = [[1 / 3], [1]]
   \<and> weights (fst (snd (evaluate example_env (Explicit grid4)
                        (example_kde\<lparr>bw := Callable half_rule\<rparr>)))) = None
   \<and> grid_points (fst (snd (evaluate example_env (Explicit grid4)
                        (example_kde\<lparr>bw := Callable half_rule\<rparr>)))) = Some grid4
   \<and> bw (fst (snd (evaluate example_env (Explicit grid4)
                        (example_kde\<lparr>bw := Callable half_rule\<rparr>)))) = Value (Num (Fin (1 / 2)))
   \<and> RuleCalled \<notin> set (snd (snd (evaluate example_env (Explicit grid4)
          (fst (snd (evaluate example_env (Explicit grid4)
                        (example_kde\<lparr>bw := Callable half_rule\<rparr>)))))))
   \<and> resolve_bw (fst (snd (evaluate example_env (Explicit grid4)
                        (example_kde\<lparr>bw := Callable half_rule\<rparr>)))) = Inr (Fin (1 / 2), [])"
proof -
  let ?k = "example_kde\<lparr>bw := Callable half_rule\<rparr>"
  have g: "base_evaluate example_env (Explicit grid4) (data ?k) = Some grid4" by simp
  have rb: "resolve_bw ?k = Inr (Fin (1 / 2), [RuleCalled])"
    by (simp add: resolve_bw_def half_rule_def)
  have d: "data ?k = [[1 / 3], [1]]" "weights ?k = None" by (simp_all add: example_kde_def)
  from evaluate_frame [of example_env "Explicit grid4" ?k] g rb d show ?thesis
    by simp
qed

text \<open>
  The claim as stated fails: the call sets \<open>grid_points\<close>, which is stored state other
  than the bandwidth, and the scalar that replaces a rule need not be positive.
\<close>

theorem evaluate_frame_counterexample:
  "grid_points (fst (snd (evaluate example_env (Explicit grid4) example_kde))) = Some grid4
   \<and> grid_points example_kde = None
   \<and> bw (fst (snd (evaluate example_env (Explicit grid4)
                      (example_kde\<lparr>bw := Callable zero_rule\<rparr>)))) = Value (Num (Fin 0))
   \<and> \<not> positive_number (Num (Fin 0))"
proof -
  let ?k = "example_kde\<lparr>bw := Callable zero_rule\<rparr>"
  have g: "base_evaluate example_env (Explicit grid4) (data ?k) = Some grid4" by simp
  have rb: "resolve_bw ?k = Inr (Fin 0, [RuleCalled])"
    by (simp add: resolve_bw_def zero_rule_def)
  have "grid_points (fst (snd (evaluate example_env (Explicit grid4) example_kde))) = Some grid4"
    by (simp add: evaluate_grid_points)
  moreover have "grid_points example_kde = None" by (simp add: example_kde_def)
  moreover have "bw (fst (snd (evaluate example_env (Explicit grid4) ?k))) = Value (Num (Fin 0))"
    by (simp add: evaluate_resolved(1) [OF g rb])
  ultimately show ?thesis by simp
qed

section \<open>The grid\<close>

text \<open>
  Claim C6. An explicit grid that is not a cartesian product of equidistant axes is
  rejected by the verification of the base class, which \<open>evaluate\<close> calls first (line
  129): the call fails with \<open>InvalidGridError\<close>, returns no density, leaves the instance
  as it was and has called neither the bandwidth rule, nor the binning, nor the kernel,
  nor the convolution.
\<close>

theorem invalid_grid_rejected_first:
  assumes "\<not> verify_grid tol g"
  shows "evaluate (env\<lparr>base_evaluate := base_evaluate_spec tol autogrid\<rparr>) (Explicit g) self
           = (Inl InvalidGridError, self, [])"
  using assms by (simp add: evaluate_base_None base_evaluate_spec_def)

theorem invalid_grid_rejected_first_witness:
  "\<not> verify_grid (1 / 1000) grid0134
   \<and> evaluate example_env (Explicit grid0134) example_kde = (Inl InvalidGridError, example_kde, [])"
  using invalid_grid_rejected_first [OF not_verify_grid0134, where env = example_env
          and autogrid = "\<lambda>req dat. None" and self = example_kde]
        not_verify_grid0134
  by (simp add: example_env_def)

section \<open>An axis with a single point\<close>

text \<open>
  Claim C10. On an axis of the grid with exactly one distinct point the interval count
  is zero and the spacing of line 151 is a division of zero by zero: no error is raised
  there, the spacing is \<open>nan\<close>, and a call whose bandwidth step and binning succeed
  fails only at the assertion of line 161. The spacing of an axis is a finite number
  exactly when the axis has at least two distinct points.
\<close>

theorem single_point_axis:
  assumes g: "base_evaluate env req (data self) = Some g" and i: "i < g_shape g"
  shows "(num_grid_points g ! i = 1 \<longrightarrow>
            num_intervals g ! i = 0 \<and> dx g ! i = NaN
            \<and> (\<forall>b ev binned.
                  resolve_bw self = Inr (b, ev)
                  \<and> linear_binning env (data self) g (weights self) = Some binned \<longrightarrow>
                  evaluate env req self =
                    (Inl AssertionError, self\<lparr>grid_points := Some g, bw := Value (Num b)\<rparr>,
                     ev @ [BinningCalled])))
         \<and> (is_finite (dx g ! i) \<longleftrightarrow> 2 \<le> num_grid_points g ! i)"
proof -
  have ne: "g \<noteq> []" using i by (rule g_shape_pos_nonempty)
  note dc = dx_cases [OF ne i]
  have fin: "is_finite (dx g ! i) \<longleftrightarrow> 2 \<le> num_grid_points g ! i"
    using dc by (auto simp: is_finite_def)
  have one: "num_grid_points g ! i = 1 \<longrightarrow>
            num_intervals g ! i = 0 \<and> dx g ! i = NaN
            \<and> (\<forall>b ev binned.
                  resolve_bw self = Inr (b, ev)
                  \<and> linear_binning env (data self) g (weights self) = Some binned \<longrightarrow>
                  evaluate env req self =
                    (Inl AssertionError, self\<lparr>grid_points := Some g, bw := Value (Num b)\<rparr>,
                     ev @ [BinningCalled]))"
  proof (intro impI conjI allI)
    assume m: "num_grid_points g ! i = 1"
    show "num_intervals g ! i = 0" using m i by (simp add: num_intervals_def)
    show nan: "dx g ! i = NaN" using m dc by auto
    fix b ev binned
    assume "resolve_bw self = Inr (b, ev)
            \<and> linear_binning env (data self) g (weights self) = Some binned"
    then have rb: "resolve_bw self = Inr (b, ev)"
      and bn: "linear_binning env (data self) g (weights self) = Some binned" by simp_all
    have "kernel_weights (kernel self) b (norm_p self) g = (Inl AssertionError, [])"
      using ne nan_axis_not_ok [OF i nan] by (rule kernel_weights_not_ok)
    from evaluate_kernel_Inl [OF g rb bn this]
    show "evaluate env req self =
            (Inl AssertionError, self\<lparr>grid_points := Some g, bw := Value (Num b)\<rparr>,
             ev @ [BinningCalled])" by simp
  qed
  from one fin show ?thesis by blast
qed

theorem single_point_axis_witness:
  "base_evaluate example_env (Explicit grid_flat) (data example_kde) = Some grid_flat
   \<and> (0::nat) < g_shape grid_flat
   \<and> num_grid_points grid_flat ! 0 = 1
   \<and> num_intervals grid_flat ! 0 = 0
   \<and> dx grid_flat ! 0 = NaN
   \<and> evaluate example_env (Explicit grid_flat) example_kde =
        (Inl AssertionError, example_kde\<lparr>grid_points := Some grid_flat\<rparr>, [BinningCalled])
   \<and> (1::nat) < g_shape grid_flat
   \<and> is_finite (dx grid_flat ! 1)
   \<and> num_grid_points grid_flat ! 1 = 3"
proof -
  have g: "base_evaluate example_env (Explicit grid_flat) (data example_kde) = Some grid_flat"
    by simp
  have i0: "(0::nat) < g_shape grid_flat" and i1: "(1::nat) < g_shape grid_flat"
    by (simp_all add: g_shape_def grid_flat_def)
  have m0: "num_grid_points grid_flat ! 0 = 1" and m1: "num_grid_points grid_flat ! 1 = 3"
    by (simp_all add: num_grid_points_def g_shape_def grid_flat_def col_def)
  have rb: "resolve_bw example_kde = Inr (Fin 1, [])"
    by (simp add: resolve_bw_def example_kde_def)
  have bn: "linear_binning example_env (data example_kde) grid_flat (weights example_kde)
              = Some [0, 0, 0]"
    by (simp add: example_env_def node_binning_def example_kde_def grid_flat_def)
  have same: "example_kde\<lparr>grid_points := Some grid_flat, bw := Value (Num (Fin 1))\<rparr>
                = example_kde\<lparr>grid_points := Some grid_flat\<rparr>"
    by (simp add: example_kde_def)
  from single_point_axis [OF g i0] single_point_axis [OF g i1] g i0 i1 m0 m1 rb bn same
  show ?thesis by simp
qed

section \<open>The footprint invariant\<close>




section \<open>Multi-indices in C order\<close>

lemma length_product_lists_prod:
  "length (product_lists xss) = prod_list (map length xss)"
proof (induction xss)
  case Nil
  show ?case by simp
next
  case (Cons xs xss)
  have "length (concat (map (\<lambda>x. map (Cons x) (product_lists xss)) xs))
          = length xs * length (product_lists xss)"
    by (induction xs) simp_all
  with Cons show ?case by simp
qed

lemma concat_cons_nth:
  assumes "j < length ax" "r < length R"
  shows "concat (map (\<lambda>x. map (Cons x) R) ax) ! (j * length R + r) = (ax ! j) # (R ! r)"
  using assms
proof (induction ax arbitrary: j)
  case Nil
  then show ?case by simp
next
  case (Cons x xs)
  show ?case
  proof (cases j)
    case 0
    with Cons.prems show ?thesis by (simp add: nth_append)
  next
    case (Suc j')
    with Cons.prems have "j' < length xs" by simp
    from Cons.IH [OF this Cons.prems(2)] Suc show ?thesis
      by (simp add: nth_append)
  qed
qed

lemma ravel_bound_nth:
  assumes "list_all2 (\<lambda>j ax. j < length ax) i axes"
  shows "ravel (map length axes) i < prod_list (map length axes)
         \<and> product_lists axes ! ravel (map length axes) i = map2 (\<lambda>ax j. ax ! j) axes i"
  using assms
proof (induction i axes rule: list_all2_induct)
  case Nil
  show ?case by simp
next
  case (Cons j js ax axes)
  let ?R = "product_lists axes"
  let ?P = "prod_list (map length axes)"
  have len: "length ?R = ?P" by (rule length_product_lists_prod)
  from Cons.IH have r: "ravel (map length axes) js < ?P"
    and nth: "?R ! ravel (map length axes) js = map2 (\<lambda>ax j. ax ! j) axes js" by simp_all
  have "j * ?P + ravel (map length axes) js < length ax * ?P"
  proof -
    have "j * ?P + ravel (map length axes) js < j * ?P + ?P" using r by simp
    also have "\<dots> = Suc j * ?P" by simp
    also have "\<dots> \<le> length ax * ?P" using Cons.hyps(1) by (intro mult_le_mono1) simp
    finally show ?thesis .
  qed
  moreover have "concat (map (\<lambda>x. map (Cons x) ?R) ax) ! (j * ?P + ravel (map length axes) js)
                   = (ax ! j) # (?R ! ravel (map length axes) js)"
    using concat_cons_nth [OF Cons.hyps(1), of "ravel (map length axes) js" ?R] r len by simp
  ultimately show ?case using nth by simp
qed

lemma length_indices: "length (indices shp) = prod_list shp"
  by (simp add: indices_def length_product_lists_prod o_def)

lemma in_indices_iff: "i \<in> set (indices shp) \<longleftrightarrow> list_all2 (\<lambda>j s. j < s) i shp"
proof -
  have "list_all2 (\<lambda>x ys. x \<in> set ys) i (map (\<lambda>s. [0..<s]) shp) = list_all2 (\<lambda>j s. j < s) i shp"
    by (simp add: list_all2_map2)
  then show ?thesis by (simp add: indices_def product_lists_set)
qed

lemma in_indices_length: "i \<in> set (indices shp) \<Longrightarrow> length i = length shp"
  by (auto simp: in_indices_iff dest: list_all2_lengthD)

lemma indices_ravel:
  assumes "i \<in> set (indices shp)"
  shows "ravel shp i < prod_list shp" and "indices shp ! ravel shp i = i"
proof -
  from assms have a: "list_all2 (\<lambda>j s. j < s) i shp" by (simp add: in_indices_iff)
  then have b: "list_all2 (\<lambda>j ax. j < length ax) i (map (\<lambda>s. [0..<s]) shp)"
    by (simp add: list_all2_map2)
  have ml: "map length (map (\<lambda>s. [0..<s]) shp) = shp" by (simp add: o_def)
  from ravel_bound_nth [OF b] ml
  have r: "ravel shp i < prod_list shp"
    and n: "indices shp ! ravel shp i = map2 (\<lambda>ax j. ax ! j) (map (\<lambda>s. [0..<s]) shp) i"
    by (simp_all add: indices_def)
  show "ravel shp i < prod_list shp" by (rule r)
  have "map2 (\<lambda>ax j. ax ! j) (map (\<lambda>s. [0..<s]) shp) i = i"
    using a by (induction i shp rule: list_all2_induct) simp_all
  with n show "indices shp ! ravel shp i = i" by simp
qed

lemma cartesian_ravel:
  assumes "i \<in> set (indices (map length axes))"
  shows "cartesian axes ! ravel (map length axes) i = map2 (\<lambda>ax j. ax ! j) axes i"
proof -
  from assms have "list_all2 (\<lambda>j s. j < s) i (map length axes)" by (simp add: in_indices_iff)
  then have "list_all2 (\<lambda>j ax. j < length ax) i axes" by (simp add: list_all2_map2)
  from ravel_bound_nth [OF this] show ?thesis by (simp add: cartesian_def)
qed

lemma length_cartesian: "length (cartesian axes) = prod_list (map length axes)"
  by (simp add: cartesian_def length_product_lists_prod)

section \<open>The footprint grid of an axis\<close>

lemma length_footprint_axis [simp]: "length (footprint_axis h l) = 2 * l + 1"
  by (simp add: footprint_axis_def)

lemma footprint_axis_nth:
  "j < 2 * l + 1 \<Longrightarrow> footprint_axis h l ! j = Fin ((real j - real l) * h)"
  unfolding footprint_axis_def by (simp only: nth_map_upt diff_zero add_0) 

lemma footprint_axis_symmetric: "symmetric_axis (footprint_axis h l)"
  unfolding symmetric_axis_def
proof (rule nth_equalityI)
  show "length (footprint_axis h l) = length (map np_neg (rev (footprint_axis h l)))" by simp
next
  fix j assume "j < length (footprint_axis h l)"
  then have j: "j < 2 * l + 1" by simp
  then have j': "2 * l - j < 2 * l + 1" by simp
  have "real (2 * l - j) = 2 * real l - real j" using j by (simp add: of_nat_diff)
  then show "footprint_axis h l ! j = map np_neg (rev (footprint_axis h l)) ! j"
    using j j' by (simp add: rev_nth footprint_axis_nth algebra_simps)
qed

lemma footprint_axis_spacing: "constant_spacing h (footprint_axis h l)"
  unfolding constant_spacing_def list_all_length
proof (intro allI impI)
  fix j assume "j < length (zip (footprint_axis h l) (tl (footprint_axis h l)))"
  then have j: "j < 2 * l" by simp
  then have "zip (footprint_axis h l) (tl (footprint_axis h l)) ! j
               = (Fin ((real j - real l) * h), Fin ((real (Suc j) - real l) * h))"
    by (simp add: nth_tl footprint_axis_nth)
  then show "case zip (footprint_axis h l) (tl (footprint_axis h l)) ! j of
               (u, v) \<Rightarrow> np_sub v u = Fin h"
    by (simp add: np_sub_def algebra_simps)
qed

lemma footprint_axis_centre: "footprint_axis h l ! l = Fin 0"
  by (simp add: footprint_axis_nth)

lemma footprint_num_nat: "footprint_num (Fin (real l)) = Inr (int (2 * l + 1))"
proof -
  have "real l * 2 + 1 = real_of_int (int (2 * l + 1))" by simp
  then have "\<lfloor>real l * 2 + 1\<rfloor> = int (2 * l + 1)" by (simp only: floor_of_int)
  then show ?thesis by (simp add: footprint_num_def)
qed

lemma linspace_pos:
  assumes "1 < n"
  shows "linspace a b (int n) =
           Inr ((map (\<lambda>j. np_add (np_mul (Fin (real j)) (np_div (np_sub b a) (Fin (real n - 1)))) a)
                     [0..<n]) [n - 1 := b])"
  using assms by (simp add: linspace_def Let_def)

lemma linspace_footprint:
  "linspace (Fin (- h * real l)) (Fin (h * real l)) (int (2 * l + 1)) = Inr (footprint_axis h l)"
proof (cases "l = 0")
  case True
  then show ?thesis by (simp add: linspace_def footprint_axis_def np_sub_def)
next
  case False
  let ?f = "\<lambda>j. np_add (np_mul (Fin (real j))
                 (np_div (np_sub (Fin (h * real l)) (Fin (- h * real l)))
                         (Fin (real (2 * l + 1) - 1)))) (Fin (- h * real l))"
  have n: "1 < 2 * l + 1" using False by simp
  have f: "?f j = Fin ((real j - real l) * h)" for j
    using False by (simp add: np_sub_def algebra_simps)
  have "(map ?f [0..<2 * l + 1]) [2 * l + 1 - 1 := Fin (h * real l)] = footprint_axis h l"
  proof (rule nth_equalityI)
    show "length ((map ?f [0..<2 * l + 1]) [2 * l + 1 - 1 := Fin (h * real l)])
            = length (footprint_axis h l)" by simp
  next
    fix j assume "j < length ((map ?f [0..<2 * l + 1]) [2 * l + 1 - 1 := Fin (h * real l)])"
    then have j: "j < 2 * l + 1" by simp
    show "(map ?f [0..<2 * l + 1]) [2 * l + 1 - 1 := Fin (h * real l)] ! j = footprint_axis h l ! j"
    proof (cases "j = 2 * l")
      case True
      then show ?thesis by (simp add: footprint_axis_nth algebra_simps)
    next
      case False
      then have "(map ?f [0..<2 * l + 1]) [2 * l + 1 - 1 := Fin (h * real l)] ! j
                   = map ?f [0..<2 * l + 1] ! j" by simp
      also have "\<dots> = ?f j" using j by (simp only: nth_map_upt diff_zero add_0)
      also have "\<dots> = footprint_axis h l ! j" using j by (simp only: f footprint_axis_nth)
      finally show ?thesis .
    qed
  qed
  with linspace_pos [OF n, of "Fin (- h * real l)" "Fin (h * real l)"] show ?thesis
    by (simp only:)
qed

lemma axis_grid_nat: "axis_grid (Fin h) (Fin (real l)) = Inr (footprint_axis h l)"
  using linspace_footprint [of h l]
  by (simp add: axis_grid_def footprint_num_nat)

lemma axis_grid_negative:
  assumes "z < 0"
  shows "axis_grid (Fin h) (Fin (real_of_int z)) = Inl LinspaceValueError"
proof -
  have "real_of_int z * 2 + 1 = real_of_int (2 * z + 1)" by simp
  then have c: "\<lceil>real_of_int z * 2 + 1\<rceil> = 2 * z + 1" and f: "\<lfloor>real_of_int z * 2 + 1\<rfloor> = 2 * z + 1"
    by (simp_all only: ceiling_of_int floor_of_int)
  have "footprint_num (Fin (real_of_int z)) = Inr (2 * z + 1)"
    using c f by (simp add: footprint_num_def)
  then show ?thesis using assms by (simp add: axis_grid_def linspace_def)
qed

section \<open>The kernel weights of a successful call\<close>

lemma sequence_err_Inr_iff: "sequence_err rs = Inr ys \<longleftrightarrow> rs = map Inr ys"
proof (induction rs arbitrary: ys)
  case Nil
  show ?case by auto
next
  case (Cons r rs)
  show ?case
  proof (cases r)
    case (Inl e)
    then show ?thesis by auto
  next
    case (Inr x)
    show ?thesis
    proof (cases "sequence_err rs")
      case (Inl e)
      have "rs \<noteq> map Inr zs" for zs
        using Cons.IH [of zs] Inl by simp
      with Inl Inr show ?thesis by (cases ys) auto
    next
      case inr: (Inr xs)
      have "rs = map Inr xs" using Cons.IH [of xs] inr by simp
      with inr Inr show ?thesis by (cases ys) (auto simp: inj_map_eq_map [OF inj_Inr])
    qed
  qed
qed

lemma footprint_value_integer:
  assumes h: "0 < h"
    and ok: "np_lt (np_mul (Fin h) (np_minimum (np_floor (np_div rb (Fin h))) (Fin (of_int n)))) rb"
  shows "\<exists>z. np_minimum (np_floor (np_div rb (Fin h))) (Fin (of_int n)) = Fin (of_int z)"
proof (cases rb)
  case (Fin r)
  have "np_minimum (np_floor (np_div rb (Fin h))) (Fin (of_int n))
          = Fin (of_int (min \<lfloor>r / h\<rfloor> n))"
    using Fin h by (simp add: min_def)
  then show ?thesis by (rule exI)
next
  case PInf
  with h show ?thesis by (auto simp: np_minimum_def)
next
  case NInf
  with h ok show ?thesis by (simp add: np_minimum_def signed_inf_def)
next
  case NaN
  with ok show ?thesis by (simp add: np_minimum_def)
qed

lemma footprint_axis_ok:
  assumes ne: "g \<noteq> []" and i: "i < g_shape g"
    and ok: "np_lt (np_mul (dx g ! i) (footprint ker b g ! i)) (real_bw ker b)"
    and ag: "axis_grid (dx g ! i) (footprint ker b g ! i) = Inr ax"
  shows "\<exists>h l. 0 < h \<and> dx g ! i = Fin h \<and> footprint ker b g ! i = Fin (real l)
               \<and> ax = footprint_axis h l"
proof -
  from dx_cases [OF ne i] ok obtain h where h: "0 < h" "dx g ! i = Fin h" by auto
  have fp: "footprint ker b g ! i =
              np_minimum (np_floor (np_div (real_bw ker b) (Fin h))) (Fin (of_int (num_intervals g ! i)))"
    using i h by (simp add: footprint_nth)
  from footprint_value_integer [OF h(1), of "real_bw ker b" "num_intervals g ! i"] ok
  obtain z where z: "footprint ker b g ! i = Fin (of_int z)"
    unfolding fp h(2) by auto
  have "\<not> z < 0"
  proof
    assume "z < 0"
    from axis_grid_negative [OF this, of h] ag show False by (simp add: h z)
  qed
  then obtain l where l: "z = int l" using nonneg_int_cases [of z] by auto
  have fl: "footprint ker b g ! i = Fin (real l)" by (simp add: z l)
  from ag have "axis_grid (Fin h) (Fin (real l)) = Inr ax"
    by (simp only: h(2) fl)
  then have "ax = footprint_axis h l" by (simp add: axis_grid_nat)
  with h fl show ?thesis by blast
qed

lemma length_spacings [simp]: "length (spacings g) = g_shape g"
  by (simp add: spacings_def)

lemma length_footprint_steps [simp]: "length (footprint_steps ker b g) = g_shape g"
  by (simp add: footprint_steps_def)

lemma length_footprint_grids [simp]: "length (footprint_grids ker b g) = g_shape g"
  by (simp add: footprint_grids_def)

lemma length_footprint_shape [simp]: "length (footprint_shape ker b g) = g_shape g"
  by (simp add: footprint_shape_def)

lemma footprint_grids_nth:
  "i < g_shape g \<Longrightarrow>
   footprint_grids ker b g ! i = footprint_axis (spacings g ! i) (footprint_steps ker b g ! i)"
  by (simp add: footprint_grids_def)

lemma map_length_footprint_grids:
  "map length (footprint_grids ker b g) = footprint_shape ker b g"
  by (rule nth_equalityI) (simp_all add: footprint_grids_nth footprint_shape_def)

lemma kernel_weights_Inr:
  assumes kw: "kernel_weights ker b nrm g = (Inr kw, ev2)"
  shows "dx g = map Fin (spacings g)"
    and "\<forall>h \<in> set (spacings g). 0 < h"
    and "footprint ker b g = map (\<lambda>l. Fin (real l)) (footprint_steps ker b g)"
    and "ev2 = [KernelCalled (cartesian (footprint_grids ker b g))]"
    and "kw = (footprint_shape ker b g,
               kernel_call ker (cartesian (footprint_grids ker b g)) b nrm)"
    and "length (kernel_call ker (cartesian (footprint_grids ker b g)) b nrm)
           = prod_list (footprint_shape ker b g)"
proof -
  from kw have ne: "g \<noteq> []" and fok: "footprint_ok ker b g"
    by (simp_all add: kernel_weights_Inr_ok)
  from kw ne fok obtain grids where
    grids: "sequence_err (map2 axis_grid (dx g) (footprint ker b g)) = Inr grids"
    by (auto simp: kernel_weights_def Let_def split: sum.splits)
  then have m: "map2 axis_grid (dx g) (footprint ker b g) = map Inr grids"
    by (simp add: sequence_err_Inr_iff)
  have "length (map2 axis_grid (dx g) (footprint ker b g)) = length grids"
    unfolding m by simp
  then have lg: "length grids = g_shape g" by simp
  have ax: "axis_grid (dx g ! i) (footprint ker b g ! i) = Inr (grids ! i)" if "i < g_shape g" for i
  proof -
    have "map2 axis_grid (dx g) (footprint ker b g) ! i = map Inr grids ! i" by (simp only: m)
    then show ?thesis using that lg by simp
  qed
  have ok: "np_lt (np_mul (dx g ! i) (footprint ker b g ! i)) (real_bw ker b)" if "i < g_shape g" for i
    using fok that by (simp add: footprint_ok_nth)
  have F: "\<exists>h l. 0 < h \<and> dx g ! i = Fin h \<and> spacings g ! i = h
                 \<and> footprint ker b g ! i = Fin (real l) \<and> footprint_steps ker b g ! i = l
                 \<and> grids ! i = footprint_axis h l"
    if i: "i < g_shape g" for i
  proof -
    from footprint_axis_ok [OF ne i ok [OF i] ax [OF i]] obtain h l where
      hl: "0 < h" "dx g ! i = Fin h" "footprint ker b g ! i = Fin (real l)"
          "grids ! i = footprint_axis h l" by blast
    have "spacings g ! i = h" using i hl(2) by (simp add: spacings_def the_fin_def)
    moreover have "footprint_steps ker b g ! i = l"
      using i hl(3) by (simp add: footprint_steps_def the_fin_def)
    ultimately show ?thesis using hl by blast
  qed
  show dxs: "dx g = map Fin (spacings g)"
  proof (rule nth_equalityI)
    show "length (dx g) = length (map Fin (spacings g))" by simp
  next
    fix i assume "i < length (dx g)"
    then have i: "i < g_shape g" by simp
    from F [OF i] obtain h where "dx g ! i = Fin h" "spacings g ! i = h" by blast
    then show "dx g ! i = map Fin (spacings g) ! i" using i by simp
  qed
  show "\<forall>h \<in> set (spacings g). 0 < h"
  proof
    fix h assume "h \<in> set (spacings g)"
    then obtain i where i: "i < g_shape g" and "spacings g ! i = h"
      by (auto simp: in_set_conv_nth)
    with F [OF i] show "0 < h" by auto
  qed
  show fps: "footprint ker b g = map (\<lambda>l. Fin (real l)) (footprint_steps ker b g)"
  proof (rule nth_equalityI)
    show "length (footprint ker b g) = length (map (\<lambda>l. Fin (real l)) (footprint_steps ker b g))"
      by simp
  next
    fix i assume "i < length (footprint ker b g)"
    then have i: "i < g_shape g" by simp
    from F [OF i] obtain l where "footprint ker b g ! i = Fin (real l)"
      "footprint_steps ker b g ! i = l" by blast
    then show "footprint ker b g ! i = map (\<lambda>l. Fin (real l)) (footprint_steps ker b g) ! i"
      using i by simp
  qed
  have gr: "grids = footprint_grids ker b g"
  proof (rule nth_equalityI)
    show "length grids = length (footprint_grids ker b g)" by (simp add: lg)
  next
    fix i assume "i < length grids"
    then have i: "i < g_shape g" by (simp add: lg)
    from F [OF i] show "grids ! i = footprint_grids ker b g ! i"
      using i by (auto simp: footprint_grids_nth)
  qed
  have "map footprint_num (footprint ker b g)
          = map Inr (map (\<lambda>l. int (2 * l + 1)) (footprint_steps ker b g))"
    by (subst fps) (simp add: footprint_num_nat o_def)
  then have shp: "sequence_err (map footprint_num (footprint ker b g))
                    = Inr (map (\<lambda>l. int (2 * l + 1)) (footprint_steps ker b g))"
    by (simp only: sequence_err_Inr_iff)
  have ns: "map nat (map (\<lambda>l. int (2 * l + 1)) (footprint_steps ker b g)) = footprint_shape ker b g"
    by (simp only: footprint_shape_def map_map o_def nat_int)
  from kw ne fok grids gr shp ns
  have r: "reshape (kernel_call ker (cartesian (footprint_grids ker b g)) b nrm)
                   (footprint_shape ker b g) = Inr kw"
    and e: "ev2 = [KernelCalled (cartesian (footprint_grids ker b g))]"
    by (simp_all add: kernel_weights_def Let_def)
  show "ev2 = [KernelCalled (cartesian (footprint_grids ker b g))]" by (rule e)
  from r show "kw = (footprint_shape ker b g,
               kernel_call ker (cartesian (footprint_grids ker b g)) b nrm)"
    by (auto simp: reshape_def split: if_splits)
  from r show "length (kernel_call ker (cartesian (footprint_grids ker b g)) b nrm)
           = prod_list (footprint_shape ker b g)"
    by (auto simp: reshape_def split: if_splits)
qed

section \<open>One kernel evaluation on the footprint\<close>

lemma trace_kernel_calls:
  "ev = [] \<or> ev = [RuleCalled] \<Longrightarrow>
   filter is_kernel_call (ev @ [BinningCalled, KernelCalled pts, ConvolveCalled]) = [KernelCalled pts]"
  by auto

text \<open>
  Claim C5. A call of \<open>evaluate\<close> that returns a density has called the kernel exactly
  once, on the cartesian product of the per-axis footprint grids. The grid of axis \<open>i\<close>
  has \<open>2 * L_i + 1\<close> points, is symmetric about zero and has the constant spacing
  \<open>dx_i\<close>. The weight vector has \<open>\<Prod>(2 * L_i + 1)\<close> entries and is reshaped to the
  footprint shape.
\<close>

theorem kernel_evaluated_once:
  assumes "fst (evaluate env req self) = Inr out"
  shows "\<exists>g b ev.
      base_evaluate env req (data self) = Some g \<and> resolve_bw self = Inr (b, ev)
    \<and> filter is_kernel_call (snd (snd (evaluate env req self)))
         = [KernelCalled (cartesian (footprint_grids (kernel self) b g))]
    \<and> footprint (kernel self) b g = map (\<lambda>l. Fin (real l)) (footprint_steps (kernel self) b g)
    \<and> dx g = map Fin (spacings g)
    \<and> length (footprint_grids (kernel self) b g) = g_shape g
    \<and> (\<forall>i<g_shape g.
          footprint_grids (kernel self) b g ! i
            = footprint_axis (spacings g ! i) (footprint_steps (kernel self) b g ! i)
          \<and> length (footprint_grids (kernel self) b g ! i)
              = 2 * (footprint_steps (kernel self) b g ! i) + 1
          \<and> symmetric_axis (footprint_grids (kernel self) b g ! i)
          \<and> constant_spacing (spacings g ! i) (footprint_grids (kernel self) b g ! i))
    \<and> length (cartesian (footprint_grids (kernel self) b g))
         = prod_list (footprint_shape (kernel self) b g)
    \<and> length (kernel_call (kernel self) (cartesian (footprint_grids (kernel self) b g)) b
                 (norm_p self))
         = prod_list (footprint_shape (kernel self) b g)
    \<and> fst (kernel_weights (kernel self) b (norm_p self) g)
         = Inr (footprint_shape (kernel self) b g,
                kernel_call (kernel self) (cartesian (footprint_grids (kernel self) b g)) b
                  (norm_p self))"
proof -
  from assms obtain g b ev binned kw ev2 dat where
    g: "base_evaluate env req (data self) = Some g" and
    rb: "resolve_bw self = Inr (b, ev)" and
    kw: "kernel_weights (kernel self) b (norm_p self) g = (Inr kw, ev2)" and
    ev: "evaluate env req self =
       (Inr out, self\<lparr>grid_points := Some g, bw := Value (Num b)\<rparr>,
        ev @ [BinningCalled] @ ev2 @ [ConvolveCalled])"
    by (rule evaluate_Inr_D)
  note K = kernel_weights_Inr [OF kw]
  let ?pts = "cartesian (footprint_grids (kernel self) b g)"
  have tr: "filter is_kernel_call (snd (snd (evaluate env req self))) = [KernelCalled ?pts]"
    using trace_kernel_calls [OF resolve_bw_events [OF rb], of ?pts] by (simp add: ev K(4))
  have axes: "\<forall>i<g_shape g.
          footprint_grids (kernel self) b g ! i
            = footprint_axis (spacings g ! i) (footprint_steps (kernel self) b g ! i)
          \<and> length (footprint_grids (kernel self) b g ! i)
              = 2 * (footprint_steps (kernel self) b g ! i) + 1
          \<and> symmetric_axis (footprint_grids (kernel self) b g ! i)
          \<and> constant_spacing (spacings g ! i) (footprint_grids (kernel self) b g ! i)"
    by (simp add: footprint_grids_nth footprint_axis_symmetric footprint_axis_spacing)
  have lp: "length ?pts = prod_list (footprint_shape (kernel self) b g)"
    by (simp add: length_cartesian map_length_footprint_grids)
  have kwv: "fst (kernel_weights (kernel self) b (norm_p self) g)
         = Inr (footprint_shape (kernel self) b g,
                kernel_call (kernel self) ?pts b (norm_p self))"
    using kw K(5) by simp
  have lg: "length (footprint_grids (kernel self) b g) = g_shape g" by simp
  show ?thesis
    by (rule exI [of _ g], rule exI [of _ b], rule exI [of _ ev])
       (intro conjI g rb tr K(3) K(1) lg axes lp K(6) kwv)
qed


theorem kernel_evaluated_once_witness:
  "fst (evaluate example_env (Explicit grid22) example_kde2) = Inr (Density [2 / 3, 1, 4 / 9, 2 / 3])
   \<and> footprint_grids example_kernel (Fin 1) grid22
         = [[Fin (- 1), Fin 0, Fin 1], [Fin (- 1), Fin 0, Fin 1]]
   \<and> (\<exists>g b ev.
      base_evaluate example_env (Explicit grid22) (data example_kde2) = Some g
    \<and> resolve_bw example_kde2 = Inr (b, ev)
    \<and> filter is_kernel_call (snd (snd (evaluate example_env (Explicit grid22) example_kde2)))
         = [KernelCalled (cartesian (footprint_grids (kernel example_kde2) b g))]
    \<and> footprint (kernel example_kde2) b g
         = map (\<lambda>l. Fin (real l)) (footprint_steps (kernel example_kde2) b g)
    \<and> dx g = map Fin (spacings g)
    \<and> length (footprint_grids (kernel example_kde2) b g) = g_shape g
    \<and> (\<forall>i<g_shape g.
          footprint_grids (kernel example_kde2) b g ! i
            = footprint_axis (spacings g ! i) (footprint_steps (kernel example_kde2) b g ! i)
          \<and> length (footprint_grids (kernel example_kde2) b g ! i)
              = 2 * (footprint_steps (kernel example_kde2) b g ! i) + 1
          \<and> symmetric_axis (footprint_grids (kernel example_kde2) b g ! i)
          \<and> constant_spacing (spacings g ! i) (footprint_grids (kernel example_kde2) b g ! i))
    \<and> length (cartesian (footprint_grids (kernel example_kde2) b g))
         = prod_list (footprint_shape (kernel example_kde2) b g)
    \<and> length (kernel_call (kernel example_kde2)
                 (cartesian (footprint_grids (kernel example_kde2) b g)) b (norm_p example_kde2))
         = prod_list (footprint_shape (kernel example_kde2) b g)
    \<and> fst (kernel_weights (kernel example_kde2) b (norm_p example_kde2) g)
         = Inr (footprint_shape (kernel example_kde2) b g,
                kernel_call (kernel example_kde2)
                  (cartesian (footprint_grids (kernel example_kde2) b g)) b (norm_p example_kde2)))"
proof -
  have ok: "fst (evaluate example_env (Explicit grid22) example_kde2)
              = Inr (Density [2 / 3, 1, 4 / 9, 2 / 3])"
    by code_simp
  have fg: "footprint_grids example_kernel (Fin 1) grid22
              = [[Fin (- 1), Fin 0, Fin 1], [Fin (- 1), Fin 0, Fin 1]]"
    by code_simp
  from ok fg kernel_evaluated_once [OF ok] show ?thesis by (intro conjI)
qed

section \<open>The density on the grid\<close>

lemma density_of_return [simp]: "density_of (evalate_return_logic req y g) = y"
  by (cases req) (simp_all add: evalate_return_logic_def)

lemma prod_num_grid_points_pos:
  assumes "g \<noteq> []"
  shows "0 < prod_list (num_grid_points g)"
proof -
  have "0 \<notin> set (num_grid_points g)"
    using assms by (auto simp: num_grid_points_def col_nonempty)
  then have "prod_list (num_grid_points g) \<noteq> 0" by (simp add: prod_list_zero_iff)
  then show ?thesis by simp
qed

lemma prod_footprint_shape_pos: "0 < prod_list (footprint_shape ker b g)"
proof -
  have "0 \<notin> set (footprint_shape ker b g)" by (auto simp: footprint_shape_def)
  then have "prod_list (footprint_shape ker b g) \<noteq> 0" by (simp add: prod_list_zero_iff)
  then show ?thesis by simp
qed

lemma src_index_footprint:
  "src_index (footprint_shape ker b g) i m = centred_index (footprint_steps ker b g) i m"
  by (simp add: src_index_def centred_index_def footprint_shape_def zip_map1 case_prod_beta)

lemma map_length_grid_axes: "map length (grid_axes g) = num_grid_points g"
  by (simp add: grid_axes_def num_grid_points_def)

lemma convolve_same_nth:
  assumes "0 < prod_list s1" "0 < prod_list s2" "i \<in> set (indices s1)"
  shows "snd (convolve_same (s1, a) (s2, k)) ! ravel s1 i =
           sum_list (map (\<lambda>m. at_or_zero (s1, a) (src_index s2 i m) * k ! ravel s2 m) (indices s2))"
proof -
  have r: "ravel s1 i < length (indices s1)"
    using indices_ravel(1) [OF assms(3)] by (simp add: length_indices)
  have "indices s1 ! ravel s1 i = i" by (rule indices_ravel(2) [OF assms(3)])
  with r assms(1,2) show ?thesis by (simp add: convolve_same_def)
qed

lemma convolve_same_shape:
  assumes "0 < prod_list s1" "0 < prod_list s2"
  shows "fst (convolve_same (s1, a) (s2, k)) = s1"
    and "length (snd (convolve_same (s1, a) (s2, k))) = prod_list s1"
  using assms by (simp_all add: convolve_same_def length_indices)

lemma kernel_point_coordinates:
  assumes m: "m \<in> set (indices (footprint_shape ker b g))" and a: "a < g_shape g"
  shows "cartesian (footprint_grids ker b g) ! ravel (footprint_shape ker b g) m ! a
           = Fin ((real (m ! a) - real (footprint_steps ker b g ! a)) * (spacings g ! a))"
proof -
  have m': "m \<in> set (indices (map length (footprint_grids ker b g)))"
    using m by (simp add: map_length_footprint_grids)
  have lm: "length m = g_shape g" using in_indices_length [OF m] by simp
  from m have "list_all2 (\<lambda>j s. j < s) m (footprint_shape ker b g)" by (simp add: in_indices_iff)
  then have "m ! a < footprint_shape ker b g ! a"
    using a by (simp add: list_all2_nthD2)
  then have ma: "m ! a < 2 * (footprint_steps ker b g ! a) + 1"
    using a by (simp add: footprint_shape_def)
  have "cartesian (footprint_grids ker b g) ! ravel (footprint_shape ker b g) m
          = map2 (\<lambda>ax j. ax ! j) (footprint_grids ker b g) m"
    using cartesian_ravel [OF m'] by (simp add: map_length_footprint_grids)
  then have "cartesian (footprint_grids ker b g) ! ravel (footprint_shape ker b g) m ! a
          = footprint_grids ker b g ! a ! (m ! a)"
    using a lm by simp
  also have "\<dots> = footprint_axis (spacings g ! a) (footprint_steps ker b g ! a) ! (m ! a)"
    using a by (simp add: footprint_grids_nth)
  also have "\<dots> = Fin ((real (m ! a) - real (footprint_steps ker b g ! a)) * (spacings g ! a))"
    using ma by (rule footprint_axis_nth)
  finally show ?thesis .
qed

text \<open>
  Claim C4. A call of \<open>evaluate\<close> that returns, on a grid whose rows are the cartesian
  product of its axes in grid order (last axis fastest), returns a density with exactly
  one value per grid node: its length is the row count of the grid, which is the product
  of the per-axis counts of distinct points. The convolution is same-size: its output
  has the shape of the binned masses. The value at flat position \<open>k\<close> belongs to grid
  row \<open>k\<close>: for the multi-index \<open>i\<close> of that row it is the sum, over the kernel points
  \<open>m\<close> of the footprint, of the weight of the kernel point \<open>(m - L) * dx\<close> times the
  binned mass of node \<open>i - (m - L)\<close>, so the kernel point at offset zero meets the mass
  of the node itself.
\<close>

theorem density_per_grid_node:
  assumes ok: "fst (evaluate env req self) = Inr out"
      and g: "base_evaluate env req (data self) = Some g"
      and rb: "resolve_bw self = Inr (b, ev)"
      and bn: "linear_binning env (data self) g (weights self) = Some binned"
      and cart: "g = cartesian (grid_axes g)"
  shows "length (density_of out) = length g
       \<and> length g = prod_list (num_grid_points g)
       \<and> length binned = length g
       \<and> convolve_same (num_grid_points g, binned)
            (footprint_shape (kernel self) b g,
             kernel_call (kernel self) (cartesian (footprint_grids (kernel self) b g)) b (norm_p self))
           = (num_grid_points g, density_of out)
       \<and> (\<forall>i \<in> set (indices (num_grid_points g)).
             ravel (num_grid_points g) i < length g
           \<and> g ! ravel (num_grid_points g) i = map2 (\<lambda>ax j. ax ! j) (grid_axes g) i
           \<and> density_of out ! ravel (num_grid_points g) i =
               sum_list (map (\<lambda>m. at_or_zero (num_grid_points g, binned)
                                     (centred_index (footprint_steps (kernel self) b g) i m)
                                 * kernel_call (kernel self)
                                     (cartesian (footprint_grids (kernel self) b g)) b (norm_p self)
                                   ! ravel (footprint_shape (kernel self) b g) m)
                             (indices (footprint_shape (kernel self) b g))))
       \<and> (\<forall>m \<in> set (indices (footprint_shape (kernel self) b g)). \<forall>a<g_shape g.
             cartesian (footprint_grids (kernel self) b g)
               ! ravel (footprint_shape (kernel self) b g) m ! a
             = Fin ((real (m ! a) - real (footprint_steps (kernel self) b g ! a)) * (spacings g ! a)))"
proof -
  let ?K = "kernel self"
  let ?shp = "num_grid_points g"
  let ?fs = "footprint_shape ?K b g"
  let ?kc = "kernel_call ?K (cartesian (footprint_grids ?K b g)) b (norm_p self)"
  from ok obtain g' b' ev' binned' kw ev2 dat where
    g': "base_evaluate env req (data self) = Some g'" and
    rb': "resolve_bw self = Inr (b', ev')" and
    bn': "linear_binning env (data self) g' (weights self) = Some binned'" and
    kw: "kernel_weights (kernel self) b' (norm_p self) g' = (Inr kw, ev2)" and
    rs: "reshape binned' (num_grid_points g') = Inr dat" and
    out: "out = evalate_return_logic req (snd (convolve_same dat kw)) g'"
    by (rule evaluate_Inr_D)
  from g g' have gg: "g' = g" by simp
  from rb rb' have bb: "b' = b" by simp
  from bn bn' gg have bi: "binned' = binned" by simp
  note kw = kw [unfolded gg bb] and rs = rs [unfolded gg bi] and out = out [unfolded gg]
  have kwv: "kw = (?fs, ?kc)" by (rule kernel_weights_Inr(5) [OF kw])
  from rs have dat: "dat = (?shp, binned)" and pl: "prod_list ?shp = length binned"
    by (auto simp: reshape_def split: if_splits)
  have ne: "g \<noteq> []" using kw by (simp add: kernel_weights_Inr_ok)
  have p1: "0 < prod_list ?shp" using ne by (rule prod_num_grid_points_pos)
  have p2: "0 < prod_list ?fs" by (rule prod_footprint_shape_pos)
  have dens: "density_of out = snd (convolve_same (?shp, binned) (?fs, ?kc))"
    by (simp add: out dat kwv)
  have lg: "length g = prod_list ?shp"
    by (subst cart) (simp add: length_cartesian map_length_grid_axes)
  have c1: "length (density_of out) = length g"
    by (simp add: dens convolve_same_shape(2) [OF p1 p2] lg)
  have c3: "length binned = length g" by (simp add: lg pl)
  have c4: "convolve_same (?shp, binned) (?fs, ?kc) = (?shp, density_of out)"
    using convolve_same_shape(1) [OF p1 p2, of binned ?kc] dens
    by (simp add: prod_eq_iff)
  have c5: "ravel ?shp i < length g
           \<and> g ! ravel ?shp i = map2 (\<lambda>ax j. ax ! j) (grid_axes g) i
           \<and> density_of out ! ravel ?shp i =
               sum_list (map (\<lambda>m. at_or_zero (?shp, binned)
                                     (centred_index (footprint_steps ?K b g) i m)
                                 * ?kc ! ravel ?fs m)
                             (indices ?fs))"
    if i: "i \<in> set (indices ?shp)" for i
  proof (intro conjI)
    show "ravel ?shp i < length g" using indices_ravel(1) [OF i] by (simp add: lg)
    have i': "i \<in> set (indices (map length (grid_axes g)))"
      using i by (simp add: map_length_grid_axes)
    have "cartesian (grid_axes g) ! ravel ?shp i = map2 (\<lambda>ax j. ax ! j) (grid_axes g) i"
      using cartesian_ravel [OF i'] by (simp add: map_length_grid_axes)
    then show "g ! ravel ?shp i = map2 (\<lambda>ax j. ax ! j) (grid_axes g) i"
      using cart by simp
    show "density_of out ! ravel ?shp i =
               sum_list (map (\<lambda>m. at_or_zero (?shp, binned)
                                     (centred_index (footprint_steps ?K b g) i m)
                                 * ?kc ! ravel ?fs m)
                             (indices ?fs))"
      by (simp add: dens convolve_same_nth [OF p1 p2 i] src_index_footprint)
  qed
  have c6: "\<forall>m \<in> set (indices ?fs). \<forall>a<g_shape g.
             cartesian (footprint_grids ?K b g) ! ravel ?fs m ! a
             = Fin ((real (m ! a) - real (footprint_steps ?K b g ! a)) * (spacings g ! a))"
    by (simp add: kernel_point_coordinates)
  from c1 lg c3 c4 c5 c6 show ?thesis by blast
qed


theorem density_per_grid_node_witness:
  "fst (evaluate example_env (Explicit grid22) example_kde2) = Inr (Density [2 / 3, 1, 4 / 9, 2 / 3])
   \<and> base_evaluate example_env (Explicit grid22) (data example_kde2) = Some grid22
   \<and> resolve_bw example_kde2 = Inr ((Fin 1), [])
   \<and> linear_binning example_env (data example_kde2) grid22 (weights example_kde2) = Some [0, 1, 0, 0]
   \<and> grid22 = cartesian (grid_axes grid22)
   \<and> length (density_of (Density [2 / 3, 1, 4 / 9, 2 / 3])) = length grid22
   \<and> length grid22 = prod_list (num_grid_points grid22)
   \<and> length [0, 1, 0, 0 :: real] = length grid22
   \<and> convolve_same ((num_grid_points grid22), [0, 1, 0, 0]) ((footprint_shape (kernel example_kde2) (Fin 1) grid22), (kernel_call (kernel example_kde2) (cartesian (footprint_grids (kernel example_kde2) (Fin 1) grid22)) (Fin 1) (norm_p example_kde2))) = ((num_grid_points grid22), density_of (Density [2 / 3, 1, 4 / 9, 2 / 3]))
   \<and> [1, 0] \<in> set (indices (num_grid_points grid22))
   \<and> ravel (num_grid_points grid22) [1, 0] < length grid22
   \<and> grid22 ! ravel (num_grid_points grid22) [1, 0] = map2 (\<lambda>ax j. ax ! j) (grid_axes grid22) [1, 0]
   \<and> density_of (Density [2 / 3, 1, 4 / 9, 2 / 3]) ! ravel (num_grid_points grid22) [1, 0] =
       sum_list (map (\<lambda>m. at_or_zero ((num_grid_points grid22), [0, 1, 0, 0])
                             (centred_index (footprint_steps (kernel example_kde2) (Fin 1) grid22) [1, 0] m)
                         * (kernel_call (kernel example_kde2) (cartesian (footprint_grids (kernel example_kde2) (Fin 1) grid22)) (Fin 1) (norm_p example_kde2)) ! ravel (footprint_shape (kernel example_kde2) (Fin 1) grid22) m)
                     (indices (footprint_shape (kernel example_kde2) (Fin 1) grid22)))
   \<and> [0, 2] \<in> set (indices (footprint_shape (kernel example_kde2) (Fin 1) grid22))
   \<and> (1::nat) < g_shape grid22
   \<and> (cartesian (footprint_grids (kernel example_kde2) (Fin 1) grid22)) ! ravel (footprint_shape (kernel example_kde2) (Fin 1) grid22) [0, 2] ! 1
     = Fin ((real ([0, 2] ! 1) - real (footprint_steps (kernel example_kde2) (Fin 1) grid22 ! 1)) * (spacings grid22 ! 1))
   \<and> ravel (num_grid_points grid22) [1, 0] = 2
   \<and> grid22 ! 2 = [1, 0]
   \<and> density_of (Density [2 / 3, 1, 4 / 9, 2 / 3]) ! 2 = 4 / 9
   \<and> (cartesian (footprint_grids (kernel example_kde2) (Fin 1) grid22)) ! ravel (footprint_shape (kernel example_kde2) (Fin 1) grid22) [0, 2] = [Fin (- 1), Fin 1]"
proof -
  have ok: "fst (evaluate example_env (Explicit grid22) example_kde2) = Inr (Density [2 / 3, 1, 4 / 9, 2 / 3])"
    by code_simp
  have g: "base_evaluate example_env (Explicit grid22) (data example_kde2) = Some grid22" by simp
  have rb: "resolve_bw example_kde2 = Inr ((Fin 1), [])"
    by (simp add: resolve_bw_def example_kde2_def example_kde_def)
  have bn: "linear_binning example_env (data example_kde2) grid22 (weights example_kde2) = Some [0, 1, 0, 0]"
    by (simp add: example_env_def node_binning_def example_kde2_def example_kde_def grid22_def)
  have cart: "grid22 = cartesian (grid_axes grid22)"
    using verify_grid22 by (simp add: verify_grid_def)
  have mem: "[1, 0] \<in> set (indices (num_grid_points grid22))" by code_simp
  have mem2: "[0, 2] \<in> set (indices (footprint_shape (kernel example_kde2) (Fin 1) grid22))" by code_simp
  have a: "(1::nat) < g_shape grid22" by (simp add: g_shape_def grid22_def)
  note T = density_per_grid_node [OF ok g rb bn cart]
  from T have c1: "length (density_of (Density [2 / 3, 1, 4 / 9, 2 / 3])) = length grid22" by blast
  from T have c2: "length grid22 = prod_list (num_grid_points grid22)" by blast
  from T have c3: "length [0, 1, 0, 0 :: real] = length grid22" by blast
  from T have c4: "convolve_same ((num_grid_points grid22), [0, 1, 0, 0]) ((footprint_shape (kernel example_kde2) (Fin 1) grid22), (kernel_call (kernel example_kde2) (cartesian (footprint_grids (kernel example_kde2) (Fin 1) grid22)) (Fin 1) (norm_p example_kde2))) = ((num_grid_points grid22), density_of (Density [2 / 3, 1, 4 / 9, 2 / 3]))" by blast
  from T mem have q: "ravel (num_grid_points grid22) [1, 0] < length grid22
   \<and> grid22 ! ravel (num_grid_points grid22) [1, 0] = map2 (\<lambda>ax j. ax ! j) (grid_axes grid22) [1, 0]
   \<and> density_of (Density [2 / 3, 1, 4 / 9, 2 / 3]) ! ravel (num_grid_points grid22) [1, 0] =
       sum_list (map (\<lambda>m. at_or_zero ((num_grid_points grid22), [0, 1, 0, 0])
                             (centred_index (footprint_steps (kernel example_kde2) (Fin 1) grid22) [1, 0] m)
                         * (kernel_call (kernel example_kde2) (cartesian (footprint_grids (kernel example_kde2) (Fin 1) grid22)) (Fin 1) (norm_p example_kde2)) ! ravel (footprint_shape (kernel example_kde2) (Fin 1) grid22) m)
                     (indices (footprint_shape (kernel example_kde2) (Fin 1) grid22)))" by blast
  from T mem2 a have q2: "(cartesian (footprint_grids (kernel example_kde2) (Fin 1) grid22)) ! ravel (footprint_shape (kernel example_kde2) (Fin 1) grid22) [0, 2] ! 1
     = Fin ((real ([0, 2] ! 1) - real (footprint_steps (kernel example_kde2) (Fin 1) grid22 ! 1)) * (spacings grid22 ! 1))" by blast
  have e1: "ravel (num_grid_points grid22) [1, 0] = 2" by code_simp
  have e2: "grid22 ! 2 = [1, 0]" by (simp add: grid22_def)
  have e3: "density_of (Density [2 / 3, 1, 4 / 9, 2 / 3]) ! 2 = 4 / 9" by simp
  have e4: "(cartesian (footprint_grids (kernel example_kde2) (Fin 1) grid22)) ! ravel (footprint_shape (kernel example_kde2) (Fin 1) grid22) [0, 2] = [Fin (- 1), Fin 1]" by code_simp
  show ?thesis
    by (intro conjI ok g rb bn cart c1 c2 c3 c4 mem q [THEN conjunct1]
          q [THEN conjunct2, THEN conjunct1] q [THEN conjunct2, THEN conjunct2] mem2 a q2
          e1 e2 e3 e4)
qed

end
